theory Spec2Isabelle
  imports Complex_Main "HOL-Library.AList" "HOL-Library.Char_ord" "HOL-Library.List_Lexorder"
    "HOL-Library.Log_Nat"
begin

section \<open>Tactical feature and probability engine of tactic-scout\<close>

text \<open>
  A Python float is the rational (\<^typ>\<open>rat\<close>) it denotes. In \<open>process_data.py\<close> the
  arithmetic is idealised as exact; the properties proved of it are inequalities that
  rounding to the nearest double preserves. In \<open>model_training.py\<close> and
  \<open>predictor.py\<close>, where results are rounded to two decimals and compared for equality,
  every float operation rounds to the nearest IEEE double. Python integers are \<^typ>\<open>int\<close>. Dictionaries whose
  insertion order is observable are association lists; \<open>AList.update\<close> overwrites an
  existing key in place and appends a new key at the end, as a Python dict does.
\<close>

datatype error =
    KeyError string
  | ValueError
  | TypeError
  | AttributeError
  | IndexError
  | FileNotFoundError
  | ModelNotLoadedError  \<comment> \<open>named by the specification; no source file defines or raises it\<close>

subsection \<open>constants.py: the static taxonomy\<close>

text \<open>
  A \<open>contexts\<close> dictionary has a fixed vocabulary of keys, each with its own threshold
  type; one entry is one clause.
\<close>

datatype context_clause =
    Min_runners int
  | Max_outs int
  | Scoring_position bool
  | Min_pressure rat
  | Max_pressure rat
  | Score_diff_range int int
  | Min_balls int
  | Max_strikes int
  | Min_strikes int
  | Min_offensive_opportunity rat
  | Min_defensive_pressure rat

record tactic_data =
  actions :: "string list"
  contexts :: "context_clause list"

type_synonym category = "(string \<times> tactic_data) list"

definition TACTICAL_CATEGORIES :: "(string \<times> category) list" where
  "TACTICAL_CATEGORIES =
   [(''OFFENSIVE'',
      [(''power_hitting'',
          \<lparr>actions = [''Home Run'', ''Double'', ''Triple''],
           contexts = [Min_runners 1, Scoring_position True, Min_pressure 1.5]\<rparr>),
       (''contact_hitting'',
          \<lparr>actions = [''Single'', ''Ground Ball''],
           contexts = [Max_pressure 1.5, Max_outs 2]\<rparr>),
       (''small_ball'',
          \<lparr>actions = [''Sac Bunt'', ''Sac Fly'', ''Bunt Groundout''],
           contexts = [Score_diff_range (- 2) 2, Max_outs 1]\<rparr>),
       (''patient_hitting'',
          \<lparr>actions = [''Walk'', ''Hit By Pitch'', ''Intent Walk''],
           contexts = [Min_balls 2, Max_strikes 1]\<rparr>)]),
    (''BASERUNNING'',
      [(''aggressive_baserunning'',
          \<lparr>actions = [''Stolen Base 2B'', ''Stolen Base 3B'', ''Stolen Base Home'', ''Triple''],
           contexts = [Max_outs 1, Min_offensive_opportunity 1.0]\<rparr>),
       (''conservative_baserunning'',
          \<lparr>actions = [''Pickoff'', ''Caught Stealing'', ''Pickoff Caught Stealing''],
           contexts = [Min_pressure 1.5]\<rparr>)]),
    (''DEFENSIVE'',
      [(''defensive_outs'',
          \<lparr>actions = [''Groundout'', ''Flyout'', ''Lineout'', ''Pop Out'', ''Forceout''],
           contexts = [Min_defensive_pressure 1.0]\<rparr>),
       (''strikeout_pitching'',
          \<lparr>actions = [''Strikeout'', ''Strikeout Double Play''],
           contexts = [Min_strikes 2]\<rparr>),
       (''double_play'',
          \<lparr>actions = [''Double Play'', ''Grounded Into DP'', ''Triple Play''],
           contexts = [Min_runners 1, Max_outs 2]\<rparr>),
       (''field_defense'',
          \<lparr>actions = [''Field Error'', ''Pickoff'', ''Caught Stealing''],
           contexts = [Min_defensive_pressure 1.5]\<rparr>)])]"

definition HIGH_LEVERAGE_late_innings :: int where
  "HIGH_LEVERAGE_late_innings = 7"

definition HIGH_LEVERAGE_high_pressure :: rat where
  "HIGH_LEVERAGE_high_pressure = 1.5"

text \<open>
  One entry of \<open>ACTION_TO_TACTIC[action]\<close>: the dictionary
  \<open>{'tactic': tactic, 'contexts': data['contexts']}\<close>.
\<close>

type_synonym tactic_info = "string \<times> context_clause list"

text \<open>
  The body of the innermost loop that builds \<open>ACTION_TO_TACTIC\<close>: create the empty
  list for a new action, then append.
\<close>

definition add_action ::
  "string \<Rightarrow> tactic_info \<Rightarrow> (string \<times> tactic_info list) list \<Rightarrow> (string \<times> tactic_info list) list"
where
  "add_action action ti m =
     (let m' = (if action \<notin> fst ` set m then AList.update action [] m else m)
      in AList.update action ((case map_of m' action of Some tis \<Rightarrow> tis | None \<Rightarrow> []) @ [ti]) m')"

definition ACTION_TO_TACTIC :: "(string \<times> tactic_info list) list" where
  "ACTION_TO_TACTIC =
     fold (\<lambda>(cname, category).
        fold (\<lambda>(tactic, data).
          fold (\<lambda>action. add_action action (tactic, contexts data)) (actions data))
          category)
       TACTICAL_CATEGORIES []"

subsection \<open>process\_data.py: the play record and its derived metrics\<close>

text \<open>
  The dictionary \<open>metrics\<close> returned by \<open>calculate_advanced_metrics\<close>; the play
  dictionary \<open>play_data\<close> is updated with it, so the play record extends it. The
  statistic fields are present only when a statistics fetcher supplied them.
  \<open>scoring_position\<close> and \<open>is_close_game\<close> hold \<open>int(bool)\<close>.
\<close>

record metrics =
  pressure_index :: rat
  game_stage :: rat
  run_expectancy :: rat
  leverage_index :: rat
  win_probability_added :: rat
  offensive_opportunity :: rat
  defensive_pressure :: rat
  count_leverage :: rat
  scoring_threat :: rat

record play_data = metrics +
  inning :: int
  result :: string
  outs :: int
  balls :: int
  strikes :: int
  score_diff :: int
  is_close_game :: int
  num_runners :: int
  scoring_position :: int
  batter_ops :: "rat option"
  batter_avg :: "rat option"
  pitcher_k_rate :: "rat option"
  pitcher_gb_rate :: "rat option"
  matchup_ops :: "rat option"
  matchup_abs :: "rat option"

definition truthy :: "int \<Rightarrow> bool" where
  "truthy n = (n \<noteq> 0)"

definition calc_pressure_index :: "play_data \<Rightarrow> rat" where
  "calc_pressure_index pd =
     (let pressure = 1.0;
          pressure = (if inning pd \<ge> HIGH_LEVERAGE_late_innings then pressure * 1.5 else pressure);
          pressure = pressure * (1 + of_int (outs pd) * 0.2);
          pressure = (if truthy (scoring_position pd) then pressure * 1.3 else pressure)
      in min pressure 2.0)"

definition calc_game_stage :: "play_data \<Rightarrow> rat" where
  "calc_game_stage pd =
     (let effective_inning = min (inning pd) 9
      in (of_int effective_inning - 1 + of_int (outs pd) / 3) / 9)"

definition calculate_advanced_metrics :: "play_data \<Rightarrow> metrics" where
  "calculate_advanced_metrics pd =
     (let pi = calc_pressure_index pd;
          gs = calc_game_stage pd;
          run_exp = of_int (num_runners pd)
                    * (if truthy (scoring_position pd) then 0.5 else 0.3)
                    * ((3 - of_int (outs pd)) / 3);
          leverage = pi * (if truthy (is_close_game pd) then 2.0 else 1.0)
                        * (if gs > 0.7 then 1.5 else 1.0);
          wpa = (if inning pd \<ge> 10 then 0.5 + (of_int (score_diff pd) / 2) * 0.1
                 else (let remaining_innings = max (10 - inning pd) 1
                       in 0.5 + (of_int (score_diff pd) / of_int remaining_innings) * 0.1));
          oo = of_int (num_runners pd)
               * (if truthy (scoring_position pd) then 1.5 else 1.0)
               * ((3 - of_int (outs pd)) / 3);
          dp = of_int (num_runners pd) * pi * ((of_int (outs pd) + 1) / 3);
          cl = (of_int (balls pd) / 4) * (1 - of_int (strikes pd) / 3);
          st = oo * pi * (if truthy (is_close_game pd) then 2.0 else 1.0)
      in \<lparr>pressure_index = pi, game_stage = gs, run_expectancy = run_exp,
          leverage_index = min leverage 3.0, win_probability_added = wpa,
          offensive_opportunity = oo, defensive_pressure = dp,
          count_leverage = cl, scoring_threat = st\<rparr>)"

subsection \<open>process\_data.py: the heuristic tactic labeler\<close>

text \<open>One arm of the \<open>if/elif\<close> chain over \<open>contexts.items()\<close>.\<close>

fun context_matches :: "play_data \<Rightarrow> context_clause \<Rightarrow> bool" where
  "context_matches pd (Min_runners threshold) = (num_runners pd \<ge> threshold)"
| "context_matches pd (Max_outs threshold) = (outs pd \<le> threshold)"
| "context_matches pd (Scoring_position threshold) =
     (scoring_position pd = (if threshold then 1 else 0))"
| "context_matches pd (Min_pressure threshold) = (pressure_index pd \<ge> threshold)"
| "context_matches pd (Max_pressure threshold) = (pressure_index pd \<le> threshold)"
| "context_matches pd (Score_diff_range lo hi) = (lo \<le> score_diff pd \<and> score_diff pd \<le> hi)"
| "context_matches pd (Min_balls threshold) = (balls pd \<ge> threshold)"
| "context_matches pd (Max_strikes threshold) = (strikes pd \<le> threshold)"
| "context_matches pd (Min_offensive_opportunity threshold) = (offensive_opportunity pd \<ge> threshold)"
| "context_matches pd (Min_defensive_pressure threshold) = (defensive_pressure pd \<ge> threshold)"
| "context_matches pd (Min_strikes threshold) = False"  \<comment> \<open>the chain has no arm for \<open>min_strikes\<close>\<close>

definition bind_err :: "error + 'a \<Rightarrow> ('a \<Rightarrow> error + 'b) \<Rightarrow> error + 'b" where
  "bind_err r f = (case r of Inl e \<Rightarrow> Inl e | Inr x \<Rightarrow> f x)"

text \<open>Lines 216--255: base probability, context score, high-leverage multipliers.\<close>

definition context_adjusted :: "play_data \<Rightarrow> tactic_info \<Rightarrow> rat" where
  "context_adjusted pd tactic_info =
     (let tactic = fst tactic_info;
          contexts = snd tactic_info;
          prob = 0.4;
          context_match_count = length (filter (context_matches pd) contexts);
          total_contexts = length contexts
      in if total_contexts > 0 then
           (let context_score = of_nat context_match_count / of_nat total_contexts;
                prob = prob + context_score * 0.6
            in if pressure_index pd \<ge> HIGH_LEVERAGE_high_pressure then
                 (if tactic \<in> set [''power_hitting'', ''patient_hitting''] then prob * 1.2
                  else if tactic \<in> set [''contact_hitting'', ''defensive_outs''] then prob * 1.1
                  else prob)
               else prob)
         else prob)"

text \<open>Lines 259--263; reading an absent \<open>batter_avg\<close> raises \<open>KeyError\<close>.\<close>

definition batter_adjust :: "play_data \<Rightarrow> string \<Rightarrow> rat \<Rightarrow> error + rat" where
  "batter_adjust pd tactic prob =
     (case batter_ops pd of
        None \<Rightarrow> Inr prob
      | Some ops \<Rightarrow>
          if tactic = ''power_hitting'' \<and> ops > 0.800 then Inr (prob * 1.2)
          else if tactic = ''contact_hitting'' then
            (case batter_avg pd of
               None \<Rightarrow> Inl (KeyError ''batter_avg'')
             | Some avg \<Rightarrow> if avg > 0.300 then Inr (prob * 1.1) else Inr prob)
          else Inr prob)"

text \<open>Lines 266--270.\<close>

definition pitcher_adjust :: "play_data \<Rightarrow> string \<Rightarrow> rat \<Rightarrow> error + rat" where
  "pitcher_adjust pd tactic prob =
     (case pitcher_k_rate pd of
        None \<Rightarrow> Inr prob
      | Some k_rate \<Rightarrow>
          if tactic = ''strikeout_pitching'' \<and> k_rate > 9.0 then Inr (prob * 1.2)
          else if tactic = ''defensive_outs'' then
            (case pitcher_gb_rate pd of
               None \<Rightarrow> Inl (KeyError ''pitcher_gb_rate'')
             | Some gb_rate \<Rightarrow> if gb_rate > 1.5 then Inr (prob * 1.1) else Inr prob)
          else Inr prob)"

text \<open>Lines 273--279.\<close>

definition matchup_adjust :: "play_data \<Rightarrow> string \<Rightarrow> rat \<Rightarrow> error + rat" where
  "matchup_adjust pd tactic prob =
     (case matchup_ops pd of
        None \<Rightarrow> Inr prob
      | Some m_ops \<Rightarrow>
          (case matchup_abs pd of
             None \<Rightarrow> Inl (KeyError ''matchup_abs'')
           | Some m_abs \<Rightarrow>
               if m_abs > 10 then
                 (if m_ops > 0.800 then
                    (if tactic \<in> set [''power_hitting'', ''contact_hitting''] then Inr (prob * 1.15)
                     else Inr prob)
                  else if m_ops < 0.600 then
                    (if tactic \<in> set [''defensive_outs'', ''strikeout_pitching''] then Inr (prob * 1.15)
                     else Inr prob)
                  else Inr prob)
               else Inr prob))"

text \<open>
  The value stored by \<open>probabilities[tactic] = prob\<close> for one candidate. The test
  \<open>prob >= 0.05\<close> guards the statistic adjustments only; the store follows it
  unconditionally.
\<close>

definition tactic_probability :: "play_data \<Rightarrow> tactic_info \<Rightarrow> error + rat" where
  "tactic_probability pd tactic_info =
     (let tactic = fst tactic_info;
          prob = context_adjusted pd tactic_info
      in if prob \<ge> 0.05 then
           bind_err (batter_adjust pd tactic prob) (\<lambda>prob.
           bind_err (pitcher_adjust pd tactic prob) (\<lambda>prob.
           matchup_adjust pd tactic prob))
         else Inr prob)"

text \<open>The loop \<open>for tactic_info in possible_tactics\<close>, threading \<open>probabilities\<close>.\<close>

fun candidate_loop ::
  "play_data \<Rightarrow> tactic_info list \<Rightarrow> (string \<times> rat) list \<Rightarrow> error + (string \<times> rat) list"
where
  "candidate_loop pd [] probabilities = Inr probabilities"
| "candidate_loop pd (tactic_info # rest) probabilities =
     bind_err (tactic_probability pd tactic_info) (\<lambda>prob.
       candidate_loop pd rest (AList.update (fst tactic_info) prob probabilities))"

text \<open>
  \<open>max(items, key=lambda x: x[1])\<close>: the first item of greatest value;
  \<open>ValueError\<close> on an empty sequence.
\<close>

fun max_by_value :: "(string \<times> rat) list \<Rightarrow> error + (string \<times> rat)" where
  "max_by_value [] = Inl ValueError"
| "max_by_value (x # xs) = Inr (fold (\<lambda>y best. if snd y > snd best then y else best) xs x)"

record labeling =
  probabilities :: "(string \<times> rat) list"
  primary_tactic :: string

definition calculate_tactical_probabilities :: "play_data \<Rightarrow> error + labeling" where
  "calculate_tactical_probabilities pd =
     (let action = result pd
      in case map_of ACTION_TO_TACTIC action of
           None \<Rightarrow> Inr \<lparr>probabilities = [(''contact_hitting'', 100.0)],
                        primary_tactic = ''contact_hitting''\<rparr>
         | Some possible_tactics \<Rightarrow>
             bind_err (candidate_loop pd possible_tactics []) (\<lambda>probabilities.
               let probabilities =
                     (if probabilities = [] then AList.update ''contact_hitting'' 100.0 probabilities
                      else probabilities)
               in bind_err (max_by_value probabilities) (\<lambda>best.
                    Inr \<lparr>probabilities = probabilities, primary_tactic = fst best\<rparr>)))"

text \<open>
  What \<open>process_game_state\<close> guarantees of the optional statistics: each group of fields
  is copied into the play dictionary as a whole.
\<close>

definition stats_grouped :: "play_data \<Rightarrow> bool" where
  "stats_grouped pd =
     ((batter_ops pd \<noteq> None \<longrightarrow> batter_avg pd \<noteq> None) \<and>
      (pitcher_k_rate pd \<noteq> None \<longrightarrow> pitcher_gb_rate pd \<noteq> None) \<and>
      (matchup_ops pd \<noteq> None \<longrightarrow> matchup_abs pd \<noteq> None))"


text \<open>Invariant of the table construction: no action is mapped to an empty list.\<close>

definition vals_nonempty :: "(string \<times> tactic_info list) list \<Rightarrow> bool" where
  "vals_nonempty m = (\<forall>e \<in> set m. snd e \<noteq> [])"


text \<open>\<open>play_data.update(calculate_advanced_metrics(play_data))\<close>, line 91.\<close>

definition update_metrics :: "play_data \<Rightarrow> play_data" where
  "update_metrics pd =
     (let m = calculate_advanced_metrics pd
      in pd\<lparr>pressure_index := pressure_index m, game_stage := game_stage m,
            run_expectancy := run_expectancy m, leverage_index := leverage_index m,
            win_probability_added := win_probability_added m,
            offensive_opportunity := offensive_opportunity m,
            defensive_pressure := defensive_pressure m,
            count_leverage := count_leverage m, scoring_threat := scoring_threat m\<rparr>)"

text \<open>Sample plays: a tied game, no count, no player statistics unless added.\<close>

definition raw_play :: "int \<Rightarrow> string \<Rightarrow> int \<Rightarrow> int \<Rightarrow> int \<Rightarrow> play_data" where
  "raw_play inn res os runners sp =
     \<lparr>pressure_index = 0, game_stage = 0, run_expectancy = 0, leverage_index = 0,
      win_probability_added = 0, offensive_opportunity = 0, defensive_pressure = 0,
      count_leverage = 0, scoring_threat = 0,
      inning = inn, result = res, outs = os, balls = 0, strikes = 0, score_diff = 0,
      is_close_game = 1, num_runners = runners, scoring_position = sp,
      batter_ops = None, batter_avg = None, pitcher_k_rate = None, pitcher_gb_rate = None,
      matchup_ops = None, matchup_abs = None\<rparr>"

definition triple_hit_play :: play_data where
  "triple_hit_play = update_metrics (raw_play 8 ''Triple'' 1 1 1)"

definition ninth_inning_play :: play_data where
  "ninth_inning_play = update_metrics (raw_play 9 ''Flyout'' 3 2 1)"

definition unknown_event_play :: play_data where
  "unknown_event_play = update_metrics (raw_play 1 ''Unknown Event'' 0 0 0)"

definition pickoff_play :: play_data where
  "pickoff_play = update_metrics ((raw_play 3 ''Pickoff'' 2 1 0)\<lparr>batter_ops := Some 0.9, batter_avg := Some 0.31\<rparr>)"

subsection \<open>Python's \<open>round(x, 2)\<close>\<close>

text \<open>Rounding to two decimals, an exact tie going to the even neighbour.\<close>

definition round_half_even :: "rat \<Rightarrow> int" where
  "round_half_even y =
     (let f = \<lfloor>y\<rfloor>; d = y - of_int f
      in if d < 1/2 then f else if d > 1/2 then f + 1 else if even f then f else f + 1)"

definition py_round2 :: "rat \<Rightarrow> rat" where
  "py_round2 x = of_int (round_half_even (x * 100)) / 100"

subsection \<open>IEEE double arithmetic\<close>

text \<open>
  \<open>fl\<close> rounds a rational to the nearest double (53 significant bits, ties to even,
  gradual underflow); each arithmetic operation of Python is the exact operation followed
  by \<open>fl\<close>. Overflow is not modelled: magnitudes stay below \<open>2^1024\<close>. \<open>round(x, 2)\<close> on
  a double rounds its exact value to two decimals, ties to even, and returns the double
  nearest to that decimal.
\<close>

definition pow2 :: "int \<Rightarrow> rat" where
  "pow2 k = (if k \<ge> 0 then 2 ^ nat k else 1 / 2 ^ nat (- k))"

text \<open>The binary exponent \<open>\<lfloor>log\<^sub>2 |x|\<rfloor>\<close> of a non-zero rational.\<close>

definition ilog2 :: "rat \<Rightarrow> int" where
  "ilog2 x = (let pq = quotient_of \<bar>x\<bar>; d = bitlen (fst pq) - bitlen (snd pq)
              in if \<bar>x\<bar> \<ge> pow2 d then d else d - 1)"

definition fl :: "rat \<Rightarrow> rat" where
  "fl x = (if x = 0 then 0
           else let e = max (ilog2 x) (- 1022); q = pow2 (e - 52)
                in of_int (round_half_even (x / q)) * q)"



definition fmul :: "rat \<Rightarrow> rat \<Rightarrow> rat" where
  "fmul a b = fl (a * b)"

definition fdiv :: "rat \<Rightarrow> rat \<Rightarrow> rat" where
  "fdiv a b = fl (a / b)"

definition fround2 :: "rat \<Rightarrow> rat" where
  "fround2 x = fl (py_round2 x)"

subsection \<open>model\_training.py: data frames\<close>

text \<open>
  A pandas \<open>DataFrame\<close>, column-major: the ordered columns, each with one cell per row.
  Cells are finite numbers, strings, booleans or the missing value; on such cells
  \<open>replace([inf, -inf], 0)\<close> (line 93) is the identity. No cell holds a dictionary, so
  the \<open>isinstance(..., dict)\<close> branch of lines 52--54 is not taken.
\<close>

datatype cell = Num rat | Str string | Flag bool | NaN

record frame =
  nrows :: nat
  columns :: "(string \<times> cell list) list"

text \<open>
  The parsers that pandas and Python apply to one string: \<open>pd.to_numeric\<close> (with
  \<open>errors='coerce'\<close>, \<open>None\<close> standing for NaN), \<open>int(s)\<close> and \<open>float(s)\<close> (\<open>None\<close>
  standing for \<open>ValueError\<close>), and the text \<open>str(x)\<close> of a number. They are library
  code and stay parameters.
\<close>

record conversions =
  to_numeric_str :: "string \<Rightarrow> rat option"
  int_str :: "string \<Rightarrow> int option"
  float_str :: "string \<Rightarrow> rat option"
  str_of_num :: "rat \<Rightarrow> string"

definition has_column :: "frame \<Rightarrow> string \<Rightarrow> bool" where
  "has_column f c = (c \<in> fst ` set (columns f))"

definition drop_columns :: "string list \<Rightarrow> frame \<Rightarrow> frame" where
  "drop_columns cs f = f\<lparr>columns := filter (\<lambda>(c, vs). c \<notin> set cs) (columns f)\<rparr>"

definition map_cells :: "(cell \<Rightarrow> cell) \<Rightarrow> frame \<Rightarrow> frame" where
  "map_cells g f = f\<lparr>columns := map (\<lambda>(c, vs). (c, map g vs)) (columns f)\<rparr>"

definition startswith :: "string \<Rightarrow> string \<Rightarrow> bool" where
  "startswith s p = (take (length p) s = p)"

text \<open>Lines 50--55: \<open>.iloc[0]\<close> of an empty column raises; the column is dropped.\<close>

definition drop_runners :: "frame \<Rightarrow> error + frame" where
  "drop_runners f =
     (case map_of (columns f) ''runners'' of
        None \<Rightarrow> Inr f
      | Some [] \<Rightarrow> Inl IndexError
      | Some (v # vs) \<Rightarrow> Inr (drop_columns [''runners''] f))"

text \<open>Lines 57--60: columns of dtype \<open>bool\<close> become 0/1.\<close>

fun is_Flag :: "cell \<Rightarrow> bool" where
  "is_Flag (Flag b) = True"
| "is_Flag v = False"

fun astype_int :: "cell \<Rightarrow> cell" where
  "astype_int (Flag b) = Num (if b then 1 else 0)"
| "astype_int v = v"

definition bools_to_int :: "frame \<Rightarrow> frame" where
  "bools_to_int f =
     f\<lparr>columns := map (\<lambda>(c, vs). (c, if list_all is_Flag vs then map astype_int vs else vs))
                       (columns f)\<rparr>"

text \<open>
  \<open>pd.get_dummies(features, columns=[c])\<close>: the column is removed and one indicator
  column \<open>c_level\<close> per distinct value that is not missing is appended. A boolean and
  the number it equals are one level, named after its first occurrence. The levels are
  sorted when they are all strings or all numbers, and stay in order of appearance
  otherwise.
\<close>

fun level_value :: "cell \<Rightarrow> cell" where
  "level_value (Flag b) = Num (if b then 1 else 0)"
| "level_value v = v"

definition levels :: "cell list \<Rightarrow> cell list" where
  "levels vs =
     fold (\<lambda>v acc. if v = NaN \<or> level_value v \<in> level_value ` set acc then acc else acc @ [v])
          vs []"

fun is_Str :: "cell \<Rightarrow> bool" where
  "is_Str (Str s) = True"
| "is_Str v = False"

fun is_number :: "cell \<Rightarrow> bool" where
  "is_number (Num r) = True"
| "is_number (Flag b) = True"
| "is_number v = False"

fun the_str :: "cell \<Rightarrow> string" where
  "the_str (Str s) = s"
| "the_str v = []"

fun the_number :: "cell \<Rightarrow> rat" where
  "the_number (Num r) = r"
| "the_number (Flag b) = (if b then 1 else 0)"
| "the_number v = 0"

definition sorted_levels :: "cell list \<Rightarrow> cell list" where
  "sorted_levels vs =
     (let ls = levels vs
      in if list_all is_Str ls then sort_key the_str ls
         else if list_all is_number ls then sort_key the_number ls
         else ls)"

fun level_name :: "conversions \<Rightarrow> cell \<Rightarrow> string" where
  "level_name cv (Str s) = s"
| "level_name cv (Num r) = str_of_num cv r"
| "level_name cv (Flag b) = (if b then ''True'' else ''False'')"
| "level_name cv NaN = []"

definition get_dummies :: "conversions \<Rightarrow> string \<Rightarrow> frame \<Rightarrow> frame" where
  "get_dummies cv c f =
     (case map_of (columns f) c of
        None \<Rightarrow> f
      | Some vs \<Rightarrow>
          f\<lparr>columns := filter (\<lambda>(k, ws). k \<noteq> c) (columns f) @
                 map (\<lambda>l. (c @ ''_'' @ level_name cv l,
                           map (\<lambda>v. Flag (v \<noteq> NaN \<and> level_value v = level_value l)) vs))
                     (sorted_levels vs)\<rparr>)"

text \<open>Lines 68--71: \<open>pd.to_numeric(..., errors='coerce').fillna(0)\<close>, cell by cell.\<close>

fun to_numeric :: "conversions \<Rightarrow> cell \<Rightarrow> cell" where
  "to_numeric cv (Num r) = Num r"
| "to_numeric cv (Str s) = (case to_numeric_str cv s of Some r \<Rightarrow> Num r | None \<Rightarrow> Num 0)"
| "to_numeric cv (Flag b) = Flag b"
| "to_numeric cv NaN = Num 0"

text \<open>Lines 39--48: the probability columns and the identifier columns are dropped.\<close>

definition drop_unused :: "frame \<Rightarrow> frame" where
  "drop_unused game_data =
     (let features = game_data;
          prob_columns = filter (\<lambda>col. startswith col ''prob_'') (map fst (columns features));
          features = drop_columns prob_columns features;
          columns_to_drop = [''description'', ''tactical_probabilities'', ''primary_tactic'',
                             ''batting_team'', ''count'', ''pitcher_id'', ''batter_id'']
      in drop_columns (filter (has_column features) columns_to_drop) features)"

text \<open>Lines 57--71: booleans, indicator columns, numeric conversion.\<close>

definition encode_columns :: "conversions \<Rightarrow> frame \<Rightarrow> frame" where
  "encode_columns cv features =
     (let features = bools_to_int features;
          features = (if has_column features ''half_inning''
                      then get_dummies cv ''half_inning'' features else features);
          features = (if has_column features ''result''
                      then get_dummies cv ''result'' features else features)
      in map_cells (to_numeric cv) features)"

text \<open>Lines 39--71, everything before the stored schema is applied.\<close>

definition encode_features :: "conversions \<Rightarrow> frame \<Rightarrow> error + frame" where
  "encode_features cv game_data =
     bind_err (drop_runners (drop_unused game_data)) (\<lambda>features.
       Inr (encode_columns cv features))"

text \<open>Lines 75--77: every expected column that is absent is added, filled with 0.\<close>

definition add_missing :: "string list \<Rightarrow> frame \<Rightarrow> frame" where
  "add_missing feature_names features =
     fold (\<lambda>col f. if \<not> has_column f col
                    then f\<lparr>columns := columns f @ [(col, replicate (nrows f) (Num 0))]\<rparr>
                    else f)
          feature_names features"

text \<open>Line 78: \<open>features[self.feature_names]\<close>; an absent label raises \<open>KeyError\<close>.\<close>

fun select_columns :: "string list \<Rightarrow> (string \<times> cell list) list \<Rightarrow> error + (string \<times> cell list) list" where
  "select_columns [] cols = Inr []"
| "select_columns (c # cs) cols =
     (case map_of cols c of
        None \<Rightarrow> Inl (KeyError c)
      | Some vs \<Rightarrow> bind_err (select_columns cs cols) (\<lambda>rest. Inr ((c, vs) # rest)))"

definition reconcile :: "string list \<Rightarrow> frame \<Rightarrow> error + frame" where
  "reconcile feature_names features =
     (let features = add_missing feature_names features
      in bind_err (select_columns feature_names (columns features)) (\<lambda>cols.
           Inr (features\<lparr>columns := cols\<rparr>)))"

text \<open>
  The column that reconciliation is expected to deliver under a label: the column of
  that label when there is one, zeros otherwise.
\<close>

definition fill :: "frame \<Rightarrow> string \<Rightarrow> cell list" where
  "fill f c = (case map_of (columns f) c of
                 None \<Rightarrow> replicate (nrows f) (Num 0)
               | Some vs \<Rightarrow> vs)"

text \<open>The fitted estimator is library code: its \<open>classes_\<close> and its \<open>predict_proba\<close>.\<close>

record classifier =
  classes :: "string list"
  model_predict_proba :: "frame \<Rightarrow> error + rat list list"

record predictor =
  model :: "classifier option"
  feature_names :: "string list option"
  scaler :: "unit option"

definition init_predictor :: predictor where
  "init_predictor = \<lparr>model = None, feature_names = None, scaler = None\<rparr>"

text \<open>
  \<open>self.tactics_to_category\<close>: built by the constructor from the constant taxonomy and
  never assigned again.
\<close>

definition tactics_to_category :: "(string \<times> string) list" where
  "tactics_to_category =
     fold (\<lambda>(category, tactics). fold (\<lambda>(tactic, data). AList.update tactic category) tactics)
          TACTICAL_CATEGORIES []"

definition prepare_features :: "conversions \<Rightarrow> predictor \<Rightarrow> frame \<Rightarrow> error + frame" where
  "prepare_features cv self game_data =
     bind_err (encode_features cv game_data) (\<lambda>features.
     bind_err (case feature_names self of
                 None \<Rightarrow> Inr features
               | Some names \<Rightarrow> reconcile names features) (\<lambda>features.
     Inr (map_cells astype_int features)))"

text \<open>
  \<open>dict(sorted(d.items(), key=lambda x: x[1], reverse=True))\<close>: a stable sort into
  descending order of value.
\<close>

definition sort_desc :: "(string \<times> rat) list \<Rightarrow> (string \<times> rat) list" where
  "sort_desc items = sort_key (\<lambda>x. - snd x) items"

type_synonym tactical_probs = "(string \<times> (string \<times> rat) list) list"

text \<open>Lines 203--206: one step of the loop over \<open>zip(classes_, probabilities)\<close>.\<close>

definition group_step :: "string \<times> rat \<Rightarrow> tactical_probs \<Rightarrow> error + tactical_probs" where
  "group_step tp tactics_by_category =
     (let tactic = fst tp; prob = snd tp
      in if prob \<ge> 0.05 then
           (let category = (case map_of tactics_to_category tactic of
                              Some c \<Rightarrow> c | None \<Rightarrow> ''OTHER'')
            in case map_of tactics_by_category category of
                 None \<Rightarrow> Inl (KeyError category)
               | Some entries \<Rightarrow>
                   Inr (AList.update category
                          (AList.update tactic (fround2 (fmul prob 100)) entries)
                          tactics_by_category))
         else Inr tactics_by_category)"

fun group_loop :: "(string \<times> rat) list \<Rightarrow> tactical_probs \<Rightarrow> error + tactical_probs" where
  "group_loop [] tactics_by_category = Inr tactics_by_category"
| "group_loop (tp # rest) tactics_by_category =
     bind_err (group_step tp tactics_by_category) (group_loop rest)"

text \<open>Loop invariant: every category of a known tactic is a key of the result.\<close>

definition covers :: "tactical_probs \<Rightarrow> bool" where
  "covers tbc = (snd ` set tactics_to_category \<subseteq> fst ` set tbc)"

text \<open>Lines 198--218, after the features are prepared.\<close>

definition classify :: "predictor \<Rightarrow> frame \<Rightarrow> error + tactical_probs" where
  "classify self features =
     (case model self of
        None \<Rightarrow> Inl AttributeError
      | Some m \<Rightarrow>
          bind_err (model_predict_proba m features) (\<lambda>rows.
            case rows of
              [] \<Rightarrow> Inl IndexError
            | first_row # _ \<Rightarrow>
                bind_err (group_loop (zip (classes m) first_row)
                            (map (\<lambda>category. (category, [])) (map fst TACTICAL_CATEGORIES)))
                  (\<lambda>tactics_by_category.
                     Inr (map (\<lambda>(category, entries). (category, sort_desc entries))
                              tactics_by_category))))"

definition predict_proba :: "conversions \<Rightarrow> predictor \<Rightarrow> frame \<Rightarrow> error + tactical_probs" where
  "predict_proba cv self game_state =
     bind_err (prepare_features cv self game_state) (\<lambda>features. classify self features)"

text \<open>\<open>game_state[c].iloc[0]\<close> and the conversions \<open>int\<close>, \<open>float\<close>, \<open>bool\<close> of a cell.\<close>

definition first_cell :: "frame \<Rightarrow> string \<Rightarrow> error + cell" where
  "first_cell f c =
     (case map_of (columns f) c of
        None \<Rightarrow> Inl (KeyError c)
      | Some [] \<Rightarrow> Inl IndexError
      | Some (v # vs) \<Rightarrow> Inr v)"

definition trunc :: "rat \<Rightarrow> int" where
  "trunc r = (if r \<ge> 0 then \<lfloor>r\<rfloor> else \<lceil>r\<rceil>)"

fun py_int :: "conversions \<Rightarrow> cell \<Rightarrow> error + int" where
  "py_int cv (Num r) = Inr (trunc r)"
| "py_int cv (Flag b) = Inr (if b then 1 else 0)"
| "py_int cv (Str s) = (case int_str cv s of Some n \<Rightarrow> Inr n | None \<Rightarrow> Inl ValueError)"
| "py_int cv NaN = Inl ValueError"

fun py_float :: "conversions \<Rightarrow> cell \<Rightarrow> error + rat option" where
  "py_float cv (Num r) = Inr (Some r)"
| "py_float cv (Flag b) = Inr (Some (if b then 1 else 0))"
| "py_float cv (Str s) = (case float_str cv s of Some r \<Rightarrow> Inr (Some r) | None \<Rightarrow> Inl ValueError)"
| "py_float cv NaN = Inr None"

fun py_bool :: "cell \<Rightarrow> bool" where
  "py_bool (Num r) = (r \<noteq> 0)"
| "py_bool (Flag b) = b"
| "py_bool (Str s) = (s \<noteq> [])"
| "py_bool NaN = True"

text \<open>
  The dictionary built by \<open>_analyze_context\<close>, flattened. A \<open>pressure_index\<close> of NaN
  stays NaN under \<open>round\<close>; it is \<open>None\<close> here and compares false.
\<close>

record game_context =
  cx_inning :: int
  cx_outs :: int
  cx_score_diff :: int
  cx_pressure_index :: "rat option"
  cx_runners :: int
  cx_scoring_position :: bool

definition analyze_context :: "conversions \<Rightarrow> frame \<Rightarrow> error + game_context" where
  "analyze_context cv game_state =
     bind_err (bind_err (first_cell game_state ''inning'') (py_int cv)) (\<lambda>i.
     bind_err (bind_err (first_cell game_state ''outs'') (py_int cv)) (\<lambda>os.
     bind_err (bind_err (first_cell game_state ''score_diff'') (py_int cv)) (\<lambda>sd.
     bind_err (bind_err (first_cell game_state ''pressure_index'') (py_float cv)) (\<lambda>pr.
     bind_err (if has_column game_state ''num_runners''
               then bind_err (first_cell game_state ''num_runners'') (py_int cv)
               else Inr 0) (\<lambda>rn.
     bind_err (if has_column game_state ''scoring_position''
               then bind_err (first_cell game_state ''scoring_position'') (\<lambda>v. Inr (py_bool v))
               else Inr False) (\<lambda>sp.
     Inr \<lparr>cx_inning = i, cx_outs = os, cx_score_diff = sd,
          cx_pressure_index = map_option fround2 pr,
          cx_runners = rn, cx_scoring_position = sp\<rparr>))))))"

definition join :: "string \<Rightarrow> string list \<Rightarrow> string" where
  "join sep parts = concat (case parts of [] \<Rightarrow> [] | p # ps \<Rightarrow> p # map (\<lambda>q. sep @ q) ps)"

definition high_pressure :: "game_context \<Rightarrow> bool" where
  "high_pressure cx = (case cx_pressure_index cx of Some r \<Rightarrow> r > 1.5 | None \<Rightarrow> False)"

definition get_recommendation_reasoning :: "string \<Rightarrow> game_context \<Rightarrow> string" where
  "get_recommendation_reasoning tactic cx =
     (let reasons = [];
          reasons = (if cx_inning cx \<ge> 7 then reasons @ [''Late game situation''] else reasons);
          reasons = (if high_pressure cx then reasons @ [''High pressure situation''] else reasons);
          reasons = (if cx_scoring_position cx then reasons @ [''Runners in scoring position'']
                     else reasons);
          reasons = (if \<bar>cx_score_diff cx\<bar> \<le> 2 then reasons @ [''Close game'']
                     else if cx_score_diff cx > 0 then reasons @ [''Leading by multiple runs'']
                     else reasons @ [''Trailing by multiple runs'']);
          reasons = fold (\<lambda>(category, tactics) reasons.
                       if tactic \<in> fst ` set tactics then
                         (if category = ''OFFENSIVE'' \<and> cx_scoring_position cx
                          then reasons @ [''Good opportunity for run scoring'']
                          else if category = ''DEFENSIVE'' \<and> high_pressure cx
                          then reasons @ [''Critical defensive situation'']
                          else reasons)
                       else reasons)
                     TACTICAL_CATEGORIES reasons
      in if reasons \<noteq> [] then join '' | '' reasons else ''Based on general game situation'')"

text \<open>
  What \<open>_get_specific_actions\<close> returns: the taxonomy entry \<open>tactics[tactic]\<close> (a
  dictionary with the keys \<open>actions\<close> and \<open>contexts\<close>) or the empty list.
\<close>

datatype specific_actions = Tactic_entry tactic_data | Action_list "string list"

fun find_entry :: "string \<Rightarrow> (string \<times> category) list \<Rightarrow> specific_actions" where
  "find_entry tactic [] = Action_list []"
| "find_entry tactic ((category, tactics) # rest) =
     (case map_of tactics tactic of
        Some entry \<Rightarrow> Tactic_entry entry
      | None \<Rightarrow> find_entry tactic rest)"

definition get_specific_actions :: "string \<Rightarrow> game_context \<Rightarrow> specific_actions" where
  "get_specific_actions tactic cx = find_entry tactic TACTICAL_CATEGORIES"

record recommendation =
  rec_tactic :: string
  rec_probability :: rat
  rec_reasoning :: string
  rec_specific_actions :: specific_actions

record analysis =
  tactical_probabilities :: tactical_probs
  top_tactics :: "(string \<times> rat) list"
  context_analysis :: game_context
  recommendations :: "recommendation list"

definition analyze_situation :: "conversions \<Rightarrow> predictor \<Rightarrow> frame \<Rightarrow> error + analysis" where
  "analyze_situation cv self game_state =
     bind_err (predict_proba cv self game_state) (\<lambda>probs.
     bind_err (analyze_context cv game_state) (\<lambda>cx.
       let all_probs = fold (\<lambda>(category, entries). fold (\<lambda>(tactic, prob). AList.update tactic prob) entries)
                            probs [];
           top_tactics = take 3 (sort_desc all_probs);
           recommendations =
             map (\<lambda>(tactic, prob).
                    \<lparr>rec_tactic = tactic, rec_probability = prob,
                     rec_reasoning = get_recommendation_reasoning tactic cx,
                     rec_specific_actions = get_specific_actions tactic cx\<rparr>)
                 top_tactics
       in Inr \<lparr>tactical_probabilities = probs, top_tactics = top_tactics,
               context_analysis = cx, recommendations = recommendations\<rparr>))"

text \<open>
  \<open>save_model\<close> and \<open>load_model\<close>. The dictionary with the keys \<open>model\<close> and
  \<open>feature_names\<close> goes through \<open>joblib.dump\<close> and \<open>joblib.load\<close>, library code that
  stays a parameter; a file system maps names to what was written. After restoring the
  two attributes, \<open>load_model\<close> prints \<open>self.model.classes_\<close> inside its \<open>try\<close>, which
  raises \<open>AttributeError\<close> when the stored model is \<open>None\<close>.
\<close>

record model_data =
  md_model :: "classifier option"
  md_feature_names :: "string list option"

record 'b joblib =
  joblib_dump :: "model_data \<Rightarrow> 'b"
  joblib_load :: "'b \<Rightarrow> error + model_data"

type_synonym 'b files = "string \<rightharpoonup> 'b"

definition saved_data :: "predictor \<Rightarrow> model_data" where
  "saved_data self = \<lparr>md_model = model self, md_feature_names = feature_names self\<rparr>"

definition save_model :: "'b joblib \<Rightarrow> predictor \<Rightarrow> string \<Rightarrow> 'b files \<Rightarrow> 'b files" where
  "save_model jl self filename fs = fs(filename \<mapsto> joblib_dump jl (saved_data self))"

definition load_model :: "'b joblib \<Rightarrow> predictor \<Rightarrow> string \<Rightarrow> 'b files \<Rightarrow> error + predictor" where
  "load_model jl self filename fs =
     (case fs filename of
        None \<Rightarrow> Inl FileNotFoundError
      | Some blob \<Rightarrow>
          bind_err (joblib_load jl blob) (\<lambda>md.
            let loaded = self\<lparr>model := md_model md,
                              feature_names := md_feature_names md\<rparr>
            in case model loaded of
                 None \<Rightarrow> Inl AttributeError
               | Some m \<Rightarrow> Inr loaded))"

text \<open>
  Frames as pandas keeps them: every column has one cell per row. A prepared frame is
  numeric when all its cells are numbers.
\<close>

definition well_formed :: "frame \<Rightarrow> bool" where
  "well_formed f = (\<forall>vs \<in> snd ` set (columns f). length vs = nrows f)"

fun is_Num :: "cell \<Rightarrow> bool" where
  "is_Num (Num r) = True"
| "is_Num v = False"

definition numeric :: "frame \<Rightarrow> bool" where
  "numeric f = (\<forall>vs \<in> snd ` set (columns f). list_all is_Num vs)"

text \<open>
  Sample data: parsers that reject every string, a \<open>joblib\<close> that stores the object
  itself, a three-class estimator, a one-play frame.
\<close>

definition no_parse :: conversions where
  "no_parse = \<lparr>to_numeric_str = (\<lambda>s. None), int_str = (\<lambda>s. None), float_str = (\<lambda>s. None),
               str_of_num = (\<lambda>r. ''0'')\<rparr>"

definition plain_joblib :: "model_data joblib" where
  "plain_joblib = \<lparr>joblib_dump = (\<lambda>d. d), joblib_load = (\<lambda>b. Inr b)\<rparr>"

definition sample_classifier :: classifier where
  "sample_classifier =
     \<lparr>classes = [''contact_hitting'', ''power_hitting'', ''defensive_outs''],
      model_predict_proba = (\<lambda>f. Inr (replicate (nrows f) [fl 0.30, fl 0.68, fl 0.02]))\<rparr>"

definition sample_predictor :: predictor where
  "sample_predictor =
     \<lparr>model = Some sample_classifier,
      feature_names = Some [''inning'', ''outs'', ''result_Home Run'', ''result_Single''],
      scaler = None\<rparr>"

definition sample_frame :: frame where
  "sample_frame =
     \<lparr>nrows = 1,
      columns = [(''inning'', [Num 8]), (''half_inning'', [Str ''top'']),
                 (''result'', [Str ''Home Run'']), (''outs'', [Num 1]),
                 (''score_diff'', [Num 1]), (''pressure_index'', [Num 2]),
                 (''num_runners'', [Num 1]), (''scoring_position'', [Num 1]),
                 (''primary_tactic'', [Str ''power_hitting'']),
                 (''prob_power_hitting'', [Num 1.2])]\<rparr>"

subsection \<open>predictor.py: momentum and probability adjustment\<close>

text \<open>
  \<open>DataFrame.empty\<close>, \<open>DataFrame.tail(5)\<close> and \<open>Series.sum()\<close> (missing values skipped).
  The sum is exact, as it is for columns of integers and of 0/1 indicators.
\<close>

definition is_empty :: "frame \<Rightarrow> bool" where
  "is_empty f = (nrows f = 0 \<or> columns f = [])"

definition tail5 :: "frame \<Rightarrow> frame" where
  "tail5 f = \<lparr>nrows = min 5 (nrows f),
              columns = map (\<lambda>(c, vs). (c, drop (length vs - 5) vs)) (columns f)\<rparr>"

fun column_sum :: "cell list \<Rightarrow> error + rat" where
  "column_sum [] = Inr 0"
| "column_sum (Num r # vs) = bind_err (column_sum vs) (\<lambda>s. Inr (r + s))"
| "column_sum (Flag b # vs) = bind_err (column_sum vs) (\<lambda>s. Inr ((if b then 1 else 0) + s))"
| "column_sum (NaN # vs) = column_sum vs"
| "column_sum (Str s # vs) = Inl TypeError"

definition success_indicators :: "(string \<times> string list) list" where
  "success_indicators =
     [(''batting'', [''hit'', ''walk'', ''run_scored'']),
      (''pitching'', [''strikeout'', ''out'', ''double_play''])]"

text \<open>The generator summed at lines 258--262: present indicator columns only.\<close>

fun indicator_total :: "frame \<Rightarrow> string list \<Rightarrow> error + rat" where
  "indicator_total recent_plays [] = Inr 0"
| "indicator_total recent_plays (indicator # rest) =
     (case map_of (columns recent_plays) indicator of
        None \<Rightarrow> indicator_total recent_plays rest
      | Some vs \<Rightarrow>
          bind_err (column_sum vs) (\<lambda>s.
          bind_err (indicator_total recent_plays rest) (\<lambda>t. Inr (s + t))))"

definition calculate_recent_success :: "frame \<Rightarrow> string \<Rightarrow> error + rat" where
  "calculate_recent_success recent_plays team_type =
     (if is_empty recent_plays then Inr 0.0
      else case map_of success_indicators team_type of
             None \<Rightarrow> Inl (KeyError team_type)
           | Some indicators \<Rightarrow>
               bind_err (indicator_total recent_plays indicators) (\<lambda>success_count.
                 Inr (min (fdiv success_count (of_nat (nrows recent_plays))) 1.0)))"


definition recent_success_of :: "frame \<Rightarrow> string \<Rightarrow> error + rat" where
  "recent_success_of game_state team_type =
     calculate_recent_success (tail5 game_state) team_type"






subsection \<open>The specification's formulas, for comparison\<close>


text \<open>
  The recent-success ratio as the specification words it: the fraction of the plays that
  have a positive indicator among the given ones.
\<close>

fun positive :: "cell \<Rightarrow> bool" where
  "positive (Num r) = (r > 0)"
| "positive (Flag b) = b"
| "positive v = False"

definition play_positive :: "frame \<Rightarrow> string list \<Rightarrow> nat \<Rightarrow> bool" where
  "play_positive f indicators i =
     list_ex (\<lambda>c. case map_of (columns f) c of
                     None \<Rightarrow> False
                   | Some vs \<Rightarrow> i < length vs \<and> positive (vs ! i)) indicators"

definition spec_success_fraction :: "frame \<Rightarrow> string list \<Rightarrow> rat" where
  "spec_success_fraction f indicators =
     of_nat (length (filter (play_positive f indicators) [0..<nrows f])) / of_nat (nrows f)"

text \<open>The number of positive cells in the indicator columns that are present.\<close>

definition positive_indicator_count :: "frame \<Rightarrow> string list \<Rightarrow> nat" where
  "positive_indicator_count f indicators =
     sum_list (map (\<lambda>c. case map_of (columns f) c of
                           None \<Rightarrow> 0
                         | Some vs \<Rightarrow> length (filter positive vs)) indicators)"

fun is_indicator :: "cell \<Rightarrow> bool" where
  "is_indicator (Num r) = (r = 0 \<or> r = 1)"
| "is_indicator (Flag b) = True"
| "is_indicator v = False"

text \<open>Every present indicator column holds 0/1 values only.\<close>

definition indicator_columns :: "frame \<Rightarrow> string list \<Rightarrow> bool" where
  "indicator_columns f indicators =
     list_all (\<lambda>c. case map_of (columns f) c of
                      None \<Rightarrow> True
                    | Some vs \<Rightarrow> list_all is_indicator vs) indicators"

text \<open>Sample histories of five plays.\<close>

definition four_hits_frame :: frame where
  "four_hits_frame =
     \<lparr>nrows = 6,
      columns = [(''hit'', [Num 0, Num 1, Num 1, Num 0, Num 1, Num 1]),
                 (''walk'', [Num 1, Num 0, Num 0, Num 0, Num 0, Num 0]),
                 (''strikeout'', [Num 1, Num 0, Num 0, Num 1, Num 0, Num 0])]\<rparr>"

definition scoring_hit_frame :: frame where
  "scoring_hit_frame =
     \<lparr>nrows = 5,
      columns = [(''hit'', [Num 1, Num 0, Num 0, Num 0, Num 0]),
                 (''run_scored'', [Num 1, Num 0, Num 0, Num 0, Num 0])]\<rparr>"

section \<open>Verified properties\<close>

subsection \<open>Bounds of the derived metrics\<close>

lemma pressure_bounds:
  assumes "0 \<le> outs pd"
  shows "0 \<le> calc_pressure_index pd" "calc_pressure_index pd \<le> 2"
proof -
  have o: "(0::rat) \<le> of_int (outs pd)" using assms by simp
  then show "0 \<le> calc_pressure_index pd"
    by (simp add: calc_pressure_index_def Let_def)
  show "calc_pressure_index pd \<le> 2"
    by (simp add: calc_pressure_index_def Let_def)
qed

lemma game_stage_bounds:
  assumes "1 \<le> inning pd" "0 \<le> outs pd" "outs pd \<le> 3"
  shows "0 \<le> calc_game_stage pd" "calc_game_stage pd \<le> 1"
proof -
  have o: "(0::rat) \<le> of_int (outs pd)" "(of_int (outs pd)::rat) \<le> 3" using assms by simp_all
  have i: "(1::rat) \<le> of_int (min (inning pd) 9)" "(of_int (min (inning pd) 9)::rat) \<le> 9"
    using assms by simp_all
  show "0 \<le> calc_game_stage pd" using o i
    by (simp add: calc_game_stage_def Let_def)
  show "calc_game_stage pd \<le> 1" using o i
    by (simp add: calc_game_stage_def Let_def)
qed

text \<open>
  C3. For every play with \<open>inning \<ge> 1\<close> and \<open>outs\<close> in \<open>[0, 3]\<close> the derived metrics
  satisfy \<open>0 \<le> pressure_index \<le> 2\<close>, \<open>0 \<le> leverage_index \<le> 3\<close> and
  \<open>0 \<le> game_stage \<le> 1\<close>.
\<close>

theorem metrics_bounds:
  assumes "1 \<le> inning pd" "0 \<le> outs pd" "outs pd \<le> 3"
  shows "0 \<le> pressure_index (calculate_advanced_metrics pd) \<and>
         pressure_index (calculate_advanced_metrics pd) \<le> 2 \<and>
         0 \<le> leverage_index (calculate_advanced_metrics pd) \<and>
         leverage_index (calculate_advanced_metrics pd) \<le> 3 \<and>
         0 \<le> game_stage (calculate_advanced_metrics pd) \<and>
         game_stage (calculate_advanced_metrics pd) \<le> 1"
proof -
  have p: "0 \<le> calc_pressure_index pd" "calc_pressure_index pd \<le> 2"
    using pressure_bounds assms by simp_all
  have g: "0 \<le> calc_game_stage pd" "calc_game_stage pd \<le> 1"
    using game_stage_bounds assms by simp_all
  have l: "0 \<le> calc_pressure_index pd * (if truthy (is_close_game pd) then 2.0 else 1.0)
                        * (if calc_game_stage pd > 0.7 then 1.5 else 1.0)"
    using p by simp
  show ?thesis using p g l
    by (simp add: calculate_advanced_metrics_def Let_def)
qed

theorem metrics_bounds_witness:
  "1 \<le> inning ninth_inning_play \<and> 0 \<le> outs ninth_inning_play \<and> outs ninth_inning_play \<le> 3 \<and>
   0 \<le> pressure_index (calculate_advanced_metrics ninth_inning_play) \<and>
   pressure_index (calculate_advanced_metrics ninth_inning_play) \<le> 2 \<and>
   0 \<le> leverage_index (calculate_advanced_metrics ninth_inning_play) \<and>
   leverage_index (calculate_advanced_metrics ninth_inning_play) \<le> 3 \<and>
   0 \<le> game_stage (calculate_advanced_metrics ninth_inning_play) \<and>
   game_stage (calculate_advanced_metrics ninth_inning_play) \<le> 1"
proof -
  have h1: "1 \<le> inning ninth_inning_play" by code_simp
  have h2: "0 \<le> outs ninth_inning_play" by code_simp
  have h3: "outs ninth_inning_play \<le> 3" by code_simp
  show ?thesis using h1 h2 h3 metrics_bounds[OF h1 h2 h3] by simp
qed

subsection \<open>The labeler: lower bound, totality, non-empty candidates\<close>


lemma scaled_ge: "(2::rat)/5 \<le> x \<Longrightarrow> 1 \<le> c \<Longrightarrow> 2/5 \<le> x * c"
proof -
  assume x: "(2::rat)/5 \<le> x" and c: "1 \<le> c"
  have "0 \<le> x" using x by simp
  have "x * 1 \<le> x * c" by (rule mult_left_mono[OF c \<open>0 \<le> x\<close>])
  then have "x \<le> x * c" by (simp only: mult_1_right)
  with x show ?thesis by (rule order_trans)
qed

lemma context_adjusted_ge: "2/5 \<le> context_adjusted pd ti"
proof -
  define s where "s = (of_nat (length (filter (context_matches pd) (snd ti))) :: rat) / of_nat (length (snd ti))"
  have s: "0 \<le> s" unfolding s_def by simp
  have a: "(2::rat)/5 \<le> 2/5 + s * (3/5)" using s by simp
  have b: "(2::rat)/5 \<le> (2/5 + s * (3/5)) * (6/5)" by (rule scaled_ge[OF a]) simp
  have c: "(2::rat)/5 \<le> (2/5 + s * (3/5)) * (11/10)" by (rule scaled_ge[OF a]) simp
  have e: "context_adjusted pd ti =
     (if length (snd ti) > 0 then
        (if pressure_index pd \<ge> HIGH_LEVERAGE_high_pressure then
           (if fst ti \<in> set [''power_hitting'', ''patient_hitting''] then (2/5 + s * (3/5)) * (6/5)
            else if fst ti \<in> set [''contact_hitting'', ''defensive_outs''] then (2/5 + s * (3/5)) * (11/10)
            else 2/5 + s * (3/5))
         else 2/5 + s * (3/5))
      else 2/5)"
    unfolding context_adjusted_def Let_def s_def by simp
  show ?thesis unfolding e using a b c by (simp only: split: if_split) simp
qed

lemma batter_adjust_ge:
  assumes "batter_adjust pd t p = Inr q" "0 \<le> p" shows "p \<le> q"
proof -
  have g: "p \<le> p * 1.2" "p \<le> p * 1.1" using assms(2) by simp_all
  from assms(1) have "q = p \<or> q = p * 1.2 \<or> q = p * 1.1"
    unfolding batter_adjust_def by (auto split: option.splits if_splits)
  with g show ?thesis by auto
qed

lemma pitcher_adjust_ge:
  assumes "pitcher_adjust pd t p = Inr q" "0 \<le> p" shows "p \<le> q"
proof -
  have g: "p \<le> p * 1.2" "p \<le> p * 1.1" using assms(2) by simp_all
  from assms(1) have "q = p \<or> q = p * 1.2 \<or> q = p * 1.1"
    unfolding pitcher_adjust_def by (auto split: option.splits if_splits)
  with g show ?thesis by auto
qed

lemma matchup_adjust_ge:
  assumes "matchup_adjust pd t p = Inr q" "0 \<le> p" shows "p \<le> q"
proof -
  have g: "p \<le> p * 1.15" using assms(2) by simp
  from assms(1) have "q = p \<or> q = p * 1.15"
    unfolding matchup_adjust_def by (auto split: option.splits if_splits)
  with g show ?thesis by auto
qed

lemma bind_err_Inr: "bind_err r f = Inr y \<longleftrightarrow> (\<exists>x. r = Inr x \<and> f x = Inr y)"
  by (cases r) (simp_all add: bind_err_def)

lemma tactic_probability_ge:
  assumes "tactic_probability pd ti = Inr p" shows "2/5 \<le> p"
proof -
  let ?c = "context_adjusted pd ti"
  have c: "2/5 \<le> ?c" by (rule context_adjusted_ge)
  then have c0: "0 \<le> ?c" by simp
  have big: "?c \<ge> 0.05" using c by simp
  have "bind_err (batter_adjust pd (fst ti) ?c) (\<lambda>prob.
           bind_err (pitcher_adjust pd (fst ti) prob) (\<lambda>prob.
           matchup_adjust pd (fst ti) prob)) = Inr p"
    using assms big unfolding tactic_probability_def Let_def by (simp only: if_True)
  then obtain p1 p2 where
      1: "batter_adjust pd (fst ti) ?c = Inr p1" and
      2: "pitcher_adjust pd (fst ti) p1 = Inr p2" and
      3: "matchup_adjust pd (fst ti) p2 = Inr p"
    unfolding bind_err_Inr by blast
  have a: "?c \<le> p1" by (rule batter_adjust_ge[OF 1 c0])
  then have "0 \<le> p1" using c0 by simp
  then have b: "p1 \<le> p2" by (rule pitcher_adjust_ge[OF 2])
  then have "0 \<le> p2" using \<open>0 \<le> p1\<close> by simp
  then have "p2 \<le> p" by (rule matchup_adjust_ge[OF 3])
  with a b c show ?thesis by linarith
qed

lemma batter_adjust_total:
  assumes "stats_grouped pd" shows "\<exists>q. batter_adjust pd t p = Inr q"
proof -
  have "\<not> isl (batter_adjust pd t p)"
    using assms by (cases "batter_ops pd"; cases "batter_avg pd") (simp_all add: batter_adjust_def stats_grouped_def)
  then show ?thesis by (cases "batter_adjust pd t p") simp_all
qed

lemma pitcher_adjust_total:
  assumes "stats_grouped pd" shows "\<exists>q. pitcher_adjust pd t p = Inr q"
proof -
  have "\<not> isl (pitcher_adjust pd t p)"
    using assms by (cases "pitcher_k_rate pd"; cases "pitcher_gb_rate pd") (simp_all add: pitcher_adjust_def stats_grouped_def)
  then show ?thesis by (cases "pitcher_adjust pd t p") simp_all
qed

lemma matchup_adjust_total:
  assumes "stats_grouped pd" shows "\<exists>q. matchup_adjust pd t p = Inr q"
proof -
  have "\<not> isl (matchup_adjust pd t p)"
    using assms by (cases "matchup_ops pd"; cases "matchup_abs pd") (simp_all add: matchup_adjust_def stats_grouped_def)
  then show ?thesis by (cases "matchup_adjust pd t p") simp_all
qed

lemma tactic_probability_total:
  assumes "stats_grouped pd" shows "\<exists>p. tactic_probability pd ti = Inr p"
proof -
  obtain p1 where 1: "batter_adjust pd (fst ti) (context_adjusted pd ti) = Inr p1"
    using batter_adjust_total[OF assms] by blast
  obtain p2 where 2: "pitcher_adjust pd (fst ti) p1 = Inr p2"
    using pitcher_adjust_total[OF assms] by blast
  obtain p3 where 3: "matchup_adjust pd (fst ti) p2 = Inr p3"
    using matchup_adjust_total[OF assms] by blast
  show ?thesis unfolding tactic_probability_def Let_def
    by (simp add: 1 2 3 bind_err_def)
qed

lemma candidate_loop_total:
  "stats_grouped pd \<Longrightarrow> \<exists>probs. candidate_loop pd tis acc = Inr probs"
proof (induction tis arbitrary: acc)
  case Nil then show ?case by simp
next
  case (Cons ti tis)
  obtain p where p: "tactic_probability pd ti = Inr p"
    using tactic_probability_total[OF Cons.prems] by blast
  show ?case using Cons.IH[OF Cons.prems] by (simp add: p bind_err_def)
qed

lemma set_update_subset: "set (AList.update k v al) \<subseteq> insert (k, v) (set al)"
  by (induction al) auto

lemma candidate_loop_ge:
  "candidate_loop pd tis acc = Inr probs \<Longrightarrow> \<forall>e \<in> set acc. 2/5 \<le> snd e
   \<Longrightarrow> \<forall>e \<in> set probs. 2/5 \<le> snd e"
proof (induction tis arbitrary: acc)
  case Nil then show ?case by simp
next
  case (Cons ti tis)
  from Cons.prems(1) obtain p where p: "tactic_probability pd ti = Inr p"
    and r: "candidate_loop pd tis (AList.update (fst ti) p acc) = Inr probs"
    unfolding candidate_loop.simps bind_err_Inr by blast
  have "2/5 \<le> p" using tactic_probability_ge[OF p] .
  then have "\<forall>e \<in> set (AList.update (fst ti) p acc). 2/5 \<le> snd e"
    using Cons.prems(2) set_update_subset[of "fst ti" p acc] by auto
  then show ?case by (rule Cons.IH[OF r])
qed

lemma candidate_loop_nonempty:
  "candidate_loop pd tis acc = Inr probs \<Longrightarrow> tis \<noteq> [] \<or> acc \<noteq> [] \<Longrightarrow> probs \<noteq> []"
proof (induction tis arbitrary: acc)
  case Nil then show ?case by simp
next
  case (Cons ti tis)
  from Cons.prems(1) obtain p where
    r: "candidate_loop pd tis (AList.update (fst ti) p acc) = Inr probs"
    unfolding candidate_loop.simps bind_err_Inr by blast
  show ?case by (rule Cons.IH[OF r]) simp
qed

lemma update_vals_nonempty:
  "vals_nonempty m \<Longrightarrow> v \<noteq> [] \<Longrightarrow> vals_nonempty (AList.update k v m)"
  unfolding vals_nonempty_def using set_update_subset[of k v m] by auto

lemma add_action_update: "\<exists>tis. add_action a ti m = AList.update a (tis @ [ti]) m"
proof (cases "a \<in> fst ` set m")
  case True
  then show ?thesis unfolding add_action_def Let_def by simp blast
next
  case False
  then show ?thesis unfolding add_action_def Let_def by simp blast
qed

lemma add_action_nonempty:
  assumes "vals_nonempty m" shows "vals_nonempty (add_action a ti m)"
proof -
  obtain tis where "add_action a ti m = AList.update a (tis @ [ti]) m"
    using add_action_update by blast
  then show ?thesis using update_vals_nonempty[OF assms, of "tis @ [ti]" a] by simp
qed

lemma fold_inv: "(\<And>x s. P s \<Longrightarrow> P (f x s)) \<Longrightarrow> P s \<Longrightarrow> P (fold f xs s)"
  by (induction xs arbitrary: s) auto

lemma ACTION_TO_TACTIC_nonempty: "vals_nonempty ACTION_TO_TACTIC"
  unfolding ACTION_TO_TACTIC_def
proof (rule fold_inv[where P = vals_nonempty])
  show "vals_nonempty []" by (simp add: vals_nonempty_def)
next
  fix x :: "string \<times> category" and s
  assume s: "vals_nonempty s"
  obtain cname cat where x: "x = (cname, cat)" by (cases x)
  have "vals_nonempty (fold (\<lambda>(tactic, data).
          fold (\<lambda>action. add_action action (tactic, contexts data)) (actions data)) cat s)"
  proof (rule fold_inv[where P = vals_nonempty])
    show "vals_nonempty s" by (rule s)
  next
    fix y :: "string \<times> tactic_data" and s'
    assume s': "vals_nonempty s'"
    obtain tname data where y: "y = (tname, data)" by (cases y)
    have "vals_nonempty (fold (\<lambda>action. add_action action (tname, contexts data)) (actions data) s')"
    proof (rule fold_inv[where P = vals_nonempty])
      show "vals_nonempty s'" by (rule s')
    next
      fix a s'' assume "vals_nonempty s''"
      then show "vals_nonempty (add_action a (tname, contexts data) s'')"
        by (rule add_action_nonempty)
    qed
    then show "vals_nonempty ((case y of (tactic, data) \<Rightarrow>
          fold (\<lambda>action. add_action action (tactic, contexts data)) (actions data)) s')"
      by (simp add: y)
  qed
  then show "vals_nonempty ((case x of (cname, category) \<Rightarrow>
        fold (\<lambda>(tactic, data).
          fold (\<lambda>action. add_action action (tactic, contexts data)) (actions data))
          category) s)"
    by (simp add: x)
qed

lemma mapped_nonempty: "map_of ACTION_TO_TACTIC a = Some tis \<Longrightarrow> tis \<noteq> []"
  using ACTION_TO_TACTIC_nonempty map_of_SomeD[of ACTION_TO_TACTIC a tis]
  unfolding vals_nonempty_def by fastforce

lemma max_by_value_total: "probs \<noteq> [] \<Longrightarrow> \<exists>best. max_by_value probs = Inr best"
  by (cases probs) simp_all

lemma labeler_mapped:
  assumes m: "map_of ACTION_TO_TACTIC (result pd) = Some possible_tactics"
      and g: "stats_grouped pd"
  shows "\<exists>probs best. candidate_loop pd possible_tactics [] = Inr probs \<and> probs \<noteq> [] \<and>
           (\<forall>e \<in> set probs. 2/5 \<le> snd e) \<and>
           calculate_tactical_probabilities pd =
             Inr \<lparr>probabilities = probs, primary_tactic = best\<rparr>"
proof -
  obtain probs where l: "candidate_loop pd possible_tactics [] = Inr probs"
    using candidate_loop_total[OF g] by blast
  have ne: "probs \<noteq> []"
    by (rule candidate_loop_nonempty[OF l]) (simp add: mapped_nonempty[OF m])
  have ge: "\<forall>e \<in> set probs. 2/5 \<le> snd e"
    by (rule candidate_loop_ge[OF l]) simp
  obtain best where b: "max_by_value probs = Inr best"
    using max_by_value_total[OF ne] by blast
  have "calculate_tactical_probabilities pd =
          Inr \<lparr>probabilities = probs, primary_tactic = fst best\<rparr>"
    by (simp add: calculate_tactical_probabilities_def Let_def m l ne b bind_err_def)
  with l ne ge show ?thesis by blast
qed


text \<open>
  C2. For every outcome action that is not a key of \<open>ACTION_TO_TACTIC\<close>, the labeler
  returns exactly the mapping \<open>{'contact_hitting': 100.0}\<close> and the primary tactic
  \<open>contact_hitting\<close>.
\<close>

theorem unmapped_action_fallback:
  assumes "result pd \<notin> fst ` set ACTION_TO_TACTIC"
  shows "calculate_tactical_probabilities pd =
           Inr \<lparr>probabilities = [(''contact_hitting'', 100.0)],
                primary_tactic = ''contact_hitting''\<rparr>"
proof -
  have "map_of ACTION_TO_TACTIC (result pd) = None"
    using assms by (simp add: map_of_eq_None_iff)
  then show ?thesis by (simp add: calculate_tactical_probabilities_def Let_def)
qed

theorem unmapped_action_fallback_witness:
  "result unknown_event_play \<notin> fst ` set ACTION_TO_TACTIC \<and>
   calculate_tactical_probabilities unknown_event_play =
     Inr \<lparr>probabilities = [(''contact_hitting'', 100.0)],
          primary_tactic = ''contact_hitting''\<rparr>"
proof -
  have h: "result unknown_event_play \<notin> fst ` set ACTION_TO_TACTIC" by code_simp
  show ?thesis using h unmapped_action_fallback[OF h] by simp
qed


text \<open>
  C8. For a play whose result is a mapped action, the returned mapping holds no tactic
  whose probability is below 0.05. (The test \<open>prob >= 0.05\<close> of the source never
  removes an entry; the bound holds because no candidate can go below the base 0.4.)
\<close>

theorem labeler_floor:
  assumes "result pd \<in> fst ` set ACTION_TO_TACTIC" and "stats_grouped pd"
  shows "\<exists>l. calculate_tactical_probabilities pd = Inr l \<and>
             (\<forall>e \<in> set (probabilities l). 0.05 \<le> snd e)"
proof -
  obtain possible_tactics where m: "map_of ACTION_TO_TACTIC (result pd) = Some possible_tactics"
    using assms(1) by (cases "map_of ACTION_TO_TACTIC (result pd)") (simp_all add: map_of_eq_None_iff)
  obtain probs best where
    r: "calculate_tactical_probabilities pd = Inr \<lparr>probabilities = probs, primary_tactic = best\<rparr>"
    and ge: "\<forall>e \<in> set probs. 2/5 \<le> snd e"
    using labeler_mapped[OF m assms(2)] by blast
  have "\<forall>e \<in> set probs. 0.05 \<le> snd e"
  proof
    fix e assume "e \<in> set probs"
    then have "2/5 \<le> snd e" using ge by blast
    then show "0.05 \<le> snd e" by simp
  qed
  with r show ?thesis by simp
qed

theorem labeler_floor_witness:
  "result pickoff_play \<in> fst ` set ACTION_TO_TACTIC \<and> stats_grouped pickoff_play \<and>
   (\<exists>l. calculate_tactical_probabilities pickoff_play = Inr l \<and>
        (\<forall>e \<in> set (probabilities l). 0.05 \<le> snd e))"
proof -
  have h1: "result pickoff_play \<in> fst ` set ACTION_TO_TACTIC" by code_simp
  have h2: "stats_grouped pickoff_play" by code_simp
  show ?thesis using h1 h2 labeler_floor[OF h1 h2] by simp
qed

text \<open>
  C10. For a play whose result has a mapped tactic list, the candidate loop ends with a
  non-empty mapping in which every probability is at least 0.4, and the labeler returns
  that very mapping: the fallback \<open>probabilities['contact_hitting'] = 100.0\<close> of the
  mapped branch is never taken.
\<close>

theorem mapped_candidates_nonempty:
  assumes "map_of ACTION_TO_TACTIC (result pd) = Some possible_tactics" and "stats_grouped pd"
  shows "\<exists>probs best. candidate_loop pd possible_tactics [] = Inr probs \<and> probs \<noteq> [] \<and>
           (\<forall>e \<in> set probs. 0.4 \<le> snd e) \<and>
           calculate_tactical_probabilities pd =
             Inr \<lparr>probabilities = probs, primary_tactic = best\<rparr>"
proof -
  obtain probs best where
    l: "candidate_loop pd possible_tactics [] = Inr probs" and ne: "probs \<noteq> []" and
    ge: "\<forall>e \<in> set probs. 2/5 \<le> snd e" and
    r: "calculate_tactical_probabilities pd = Inr \<lparr>probabilities = probs, primary_tactic = best\<rparr>"
    using labeler_mapped[OF assms] by blast
  have "\<forall>e \<in> set probs. 0.4 \<le> snd e" using ge by simp
  with l ne r show ?thesis by blast
qed

theorem mapped_candidates_nonempty_witness:
  "map_of ACTION_TO_TACTIC (result triple_hit_play) =
     Some [(''power_hitting'', [Min_runners 1, Scoring_position True, Min_pressure 1.5]),
           (''aggressive_baserunning'', [Max_outs 1, Min_offensive_opportunity 1.0])] \<and>
   stats_grouped triple_hit_play \<and>
   (\<exists>probs best.
      candidate_loop triple_hit_play
        [(''power_hitting'', [Min_runners 1, Scoring_position True, Min_pressure 1.5]),
         (''aggressive_baserunning'', [Max_outs 1, Min_offensive_opportunity 1.0])] [] = Inr probs \<and>
      probs \<noteq> [] \<and> (\<forall>e \<in> set probs. 0.4 \<le> snd e) \<and>
      calculate_tactical_probabilities triple_hit_play =
        Inr \<lparr>probabilities = probs, primary_tactic = best\<rparr>)"
proof -
  have h1: "map_of ACTION_TO_TACTIC (result triple_hit_play) =
     Some [(''power_hitting'', [Min_runners 1, Scoring_position True, Min_pressure 1.5]),
           (''aggressive_baserunning'', [Max_outs 1, Min_offensive_opportunity 1.0])]"
    by code_simp
  have h2: "stats_grouped triple_hit_play" by code_simp
  show ?thesis using h1 h2 mapped_candidates_nonempty[OF h1 h2] by simp
qed

subsection \<open>Feature preparation and inference\<close>

lemma has_column_map_of: "has_column f c \<longleftrightarrow> map_of (columns f) c \<noteq> None"
  by (simp add: has_column_def map_of_eq_None_iff)

lemma add_missing_shape: "\<exists>cols. add_missing ns f = f\<lparr>columns := cols\<rparr>"
proof (induction ns arbitrary: f)
  case Nil
  have "add_missing [] f = f\<lparr>columns := columns f\<rparr>" by (simp add: add_missing_def)
  then show ?case by blast
next
  case (Cons n ns)
  let ?g = "if \<not> has_column f n
            then f\<lparr>columns := columns f @ [(n, replicate (nrows f) (Num 0))]\<rparr> else f"
  have step: "add_missing (n # ns) f = add_missing ns ?g" by (simp add: add_missing_def)
  obtain cols where c: "add_missing ns ?g = ?g\<lparr>columns := cols\<rparr>" using Cons.IH by blast
  have "?g\<lparr>columns := cols\<rparr> = f\<lparr>columns := cols\<rparr>" by simp
  with step c show ?case by metis
qed

lemma nrows_add_missing: "nrows (add_missing ns f) = nrows f"
proof -
  obtain cols where "add_missing ns f = f\<lparr>columns := cols\<rparr>" using add_missing_shape by blast
  then show ?thesis by simp
qed

lemma map_of_add_missing:
  "map_of (columns (add_missing ns f)) c =
     (case map_of (columns f) c of
        Some vs \<Rightarrow> Some vs
      | None \<Rightarrow> if c \<in> set ns then Some (replicate (nrows f) (Num 0)) else None)"
proof (induction ns arbitrary: f)
  case Nil
  show ?case by (simp add: add_missing_def split: option.splits)
next
  case (Cons n ns)
  let ?g = "if \<not> has_column f n
            then f\<lparr>columns := columns f @ [(n, replicate (nrows f) (Num 0))]\<rparr> else f"
  have step: "add_missing (n # ns) f = add_missing ns ?g" by (simp add: add_missing_def)
  have nr: "nrows ?g = nrows f" by simp
  have g: "map_of (columns ?g) c =
             (case map_of (columns f) c of
                Some vs \<Rightarrow> Some vs
              | None \<Rightarrow> if c = n then Some (replicate (nrows f) (Num 0)) else None)"
    by (auto simp: has_column_map_of map_add_def split: option.splits)
  show ?case unfolding step Cons.IH[of ?g] g nr
    by (auto split: option.splits)
qed

lemma select_columns_ok:
  "\<forall>c \<in> set ns. map_of cols c \<noteq> None \<Longrightarrow>
   select_columns ns cols = Inr (map (\<lambda>c. (c, the (map_of cols c))) ns)"
  by (induction ns) (auto simp: bind_err_def)

lemma reconcile_ok:
  "reconcile ns f = Inr (f\<lparr>columns := map (\<lambda>c. (c, fill f c)) ns\<rparr>)"
proof -
  let ?a = "add_missing ns f"
  have present: "\<forall>c \<in> set ns. map_of (columns ?a) c \<noteq> None"
    by (simp add: map_of_add_missing split: option.splits)
  have vals: "\<forall>c \<in> set ns. the (map_of (columns ?a) c) = fill f c"
    by (simp add: map_of_add_missing fill_def split: option.splits)
  have sel: "select_columns ns (columns ?a) = Inr (map (\<lambda>c. (c, fill f c)) ns)"
    unfolding select_columns_ok[OF present] using vals by simp
  obtain cols where "?a = f\<lparr>columns := cols\<rparr>" using add_missing_shape by blast
  then have "?a\<lparr>columns := map (\<lambda>c. (c, fill f c)) ns\<rparr> = f\<lparr>columns := map (\<lambda>c. (c, fill f c)) ns\<rparr>"
    by simp
  then show ?thesis unfolding reconcile_def Let_def sel by (simp add: bind_err_def)
qed

lemma drop_columns_keeps:
  "nrows (drop_columns cs f) = nrows f"
  "has_column (drop_columns cs f) c \<Longrightarrow> has_column f c"
  by (auto simp: drop_columns_def has_column_def)

lemma drop_runners_cases:
  "drop_runners f = Inl IndexError \<or> (\<exists>g. drop_runners f = Inr g \<and> nrows g = nrows f)"
  by (auto simp: drop_runners_def drop_columns_keeps split: option.splits list.splits)

lemma drop_runners_absent: "\<not> has_column f ''runners'' \<Longrightarrow> drop_runners f = Inr f"
  by (simp add: drop_runners_def has_column_map_of)

lemma nrows_get_dummies: "nrows (get_dummies cv c f) = nrows f"
  by (simp add: get_dummies_def split: option.splits)

lemma nrows_steps:
  "nrows (bools_to_int f) = nrows f" "nrows (map_cells g f) = nrows f"
  by (simp_all add: bools_to_int_def map_cells_def)

lemma encode_features_split:
  "encode_features cv gs = bind_err (drop_runners (drop_unused gs)) (\<lambda>f. Inr (encode_columns cv f))"
  by (simp add: encode_features_def)

lemma nrows_drop_unused: "nrows (drop_unused gs) = nrows gs"
  by (simp add: drop_unused_def Let_def drop_columns_keeps)

lemma nrows_encode_columns: "nrows (encode_columns cv f) = nrows f"
  by (simp add: encode_columns_def Let_def nrows_steps nrows_get_dummies)

lemma drop_unused_absent: "\<not> has_column gs ''runners'' \<Longrightarrow> \<not> has_column (drop_unused gs) ''runners''"
  unfolding drop_unused_def Let_def using drop_columns_keeps(2) by blast

lemma encode_features_cases:
  "encode_features cv gs = Inl IndexError \<or>
   (\<exists>enc. encode_features cv gs = Inr enc \<and> nrows enc = nrows gs)"
proof -
  from drop_runners_cases[of "drop_unused gs"] show ?thesis
  proof
    assume "drop_runners (drop_unused gs) = Inl IndexError"
    then show ?thesis by (simp add: encode_features_split bind_err_def)
  next
    assume "\<exists>g. drop_runners (drop_unused gs) = Inr g \<and> nrows g = nrows (drop_unused gs)"
    then obtain g where g: "drop_runners (drop_unused gs) = Inr g" "nrows g = nrows (drop_unused gs)"
      by blast
    then have "encode_features cv gs = Inr (encode_columns cv g)"
      by (simp add: encode_features_split bind_err_def)
    moreover have "nrows (encode_columns cv g) = nrows gs"
      by (simp add: nrows_encode_columns g(2) nrows_drop_unused)
    ultimately show ?thesis by blast
  qed
qed

lemma encode_features_total:
  assumes "\<not> has_column gs ''runners''"
  shows "\<exists>enc. encode_features cv gs = Inr enc \<and> nrows enc = nrows gs"
proof -
  have "drop_runners (drop_unused gs) = Inr (drop_unused gs)"
    by (rule drop_runners_absent[OF drop_unused_absent[OF assms]])
  then have "encode_features cv gs = Inr (encode_columns cv (drop_unused gs))"
    by (simp add: encode_features_split bind_err_def)
  moreover have "nrows (encode_columns cv (drop_unused gs)) = nrows gs"
    by (simp add: nrows_encode_columns nrows_drop_unused)
  ultimately show ?thesis by blast
qed

lemma prepare_features_of_encoded:
  assumes "encode_features cv gs = Inr enc"
  shows "prepare_features cv self gs =
           Inr (map_cells astype_int
                  (case feature_names self of
                     None \<Rightarrow> enc
                   | Some names \<Rightarrow> enc\<lparr>columns := map (\<lambda>c. (c, fill enc c)) names\<rparr>))"
  by (cases "feature_names self") (simp_all add: prepare_features_def assms bind_err_def reconcile_ok)

lemma predict_proba_untrained:
  assumes "model self = None"
  shows "predict_proba cv self gs = Inl AttributeError \<or> predict_proba cv self gs = Inl IndexError"
proof -
  from encode_features_cases[of cv gs] show ?thesis
  proof
    assume "encode_features cv gs = Inl IndexError"
    then have "predict_proba cv self gs = Inl IndexError"
      by (simp add: predict_proba_def prepare_features_def bind_err_def)
    then show ?thesis by simp
  next
    assume "\<exists>enc. encode_features cv gs = Inr enc \<and> nrows enc = nrows gs"
    then obtain enc where "encode_features cv gs = Inr enc" by blast
    then have "predict_proba cv self gs = Inl AttributeError"
      by (simp add: predict_proba_def prepare_features_of_encoded bind_err_def classify_def assms)
    then show ?thesis by simp
  qed
qed

lemma analyze_situation_error:
  "predict_proba cv self gs = Inl e \<Longrightarrow> analyze_situation cv self gs = Inl e"
  by (simp add: analyze_situation_def bind_err_def)

text \<open>
  C7, as the code has it. Calling \<open>predict_proba\<close> (and hence \<open>analyze_situation\<close>)
  before a model is trained or loaded fails: with Python's \<open>AttributeError\<close>, raised
  when the absent model is dereferenced, or with the \<open>IndexError\<close> of feature
  preparation on a frame whose \<open>runners\<close> column has no rows. Without such a column
  the error is always \<open>AttributeError\<close>.
\<close>

theorem untrained_predictor_fails:
  assumes "model self = None"
  shows "(\<exists>e \<in> {AttributeError, IndexError}.
            predict_proba cv self gs = Inl e \<and> analyze_situation cv self gs = Inl e) \<and>
         (\<not> has_column gs ''runners'' \<longrightarrow>
            predict_proba cv self gs = Inl AttributeError \<and>
            analyze_situation cv self gs = Inl AttributeError)"
proof -
  have p: "predict_proba cv self gs = Inl AttributeError \<or> predict_proba cv self gs = Inl IndexError"
    by (rule predict_proba_untrained[OF assms])
  have r: "predict_proba cv self gs = Inl AttributeError" if nr: "\<not> has_column gs ''runners''"
  proof -
    obtain enc where "encode_features cv gs = Inr enc" using encode_features_total[OF nr] by blast
    then show ?thesis
      by (simp add: predict_proba_def prepare_features_of_encoded bind_err_def classify_def assms)
  qed
  show ?thesis using p r analyze_situation_error[of cv self gs] by blast
qed

theorem untrained_predictor_fails_witness:
  "model init_predictor = None \<and> \<not> has_column sample_frame ''runners'' \<and>
   predict_proba no_parse init_predictor sample_frame = Inl AttributeError \<and>
   analyze_situation no_parse init_predictor sample_frame = Inl AttributeError"
proof -
  have h: "model init_predictor = None" by (simp add: init_predictor_def)
  have r: "\<not> has_column sample_frame ''runners''" by code_simp
  show ?thesis using h r untrained_predictor_fails[OF h, of no_parse sample_frame] by blast
qed

text \<open>
  C7 as stated fails: the error of an untrained predictor is not \<open>ModelNotLoadedError\<close>.
\<close>

theorem untrained_counterexample:
  "predict_proba no_parse init_predictor sample_frame = Inl AttributeError \<and>
   predict_proba no_parse init_predictor sample_frame \<noteq> Inl ModelNotLoadedError \<and>
   analyze_situation no_parse init_predictor sample_frame \<noteq> Inl ModelNotLoadedError"
  by code_simp

text \<open>
  C9 at \<open>power_hitting\<close>: \<open>_get_specific_actions\<close> returns the whole taxonomy entry, with
  its \<open>contexts\<close>, not the list of actions; so do the recommendations of
  \<open>analyze_situation\<close>.
\<close>

theorem specific_actions_is_entry:
  "get_specific_actions ''power_hitting'' cx =
     Tactic_entry \<lparr>actions = [''Home Run'', ''Double'', ''Triple''],
                   contexts = [Min_runners 1, Scoring_position True, Min_pressure 1.5]\<rparr> \<and>
   get_specific_actions ''power_hitting'' cx \<noteq> Action_list [''Home Run'', ''Double'', ''Triple''] \<and>
   (case analyze_situation no_parse sample_predictor sample_frame of
      Inl e \<Rightarrow> []
    | Inr a \<Rightarrow> map rec_specific_actions (recommendations a)) =
     [Tactic_entry \<lparr>actions = [''Home Run'', ''Double'', ''Triple''],
                    contexts = [Min_runners 1, Scoring_position True, Min_pressure 1.5]\<rparr>,
      Tactic_entry \<lparr>actions = [''Single'', ''Ground Ball''],
                    contexts = [Max_pressure 1.5, Max_outs 2]\<rparr>]"
proof -
  have a: "get_specific_actions ''power_hitting'' cx =
     Tactic_entry \<lparr>actions = [''Home Run'', ''Double'', ''Triple''],
                   contexts = [Min_runners 1, Scoring_position True, Min_pressure 1.5]\<rparr>"
    by (simp add: get_specific_actions_def TACTICAL_CATEGORIES_def)
  have b: "(case analyze_situation no_parse sample_predictor sample_frame of
      Inl e \<Rightarrow> []
    | Inr a \<Rightarrow> map rec_specific_actions (recommendations a)) =
     [Tactic_entry \<lparr>actions = [''Home Run'', ''Double'', ''Triple''],
                    contexts = [Min_runners 1, Scoring_position True, Min_pressure 1.5]\<rparr>,
      Tactic_entry \<lparr>actions = [''Single'', ''Ground Ball''],
                    contexts = [Max_pressure 1.5, Max_outs 2]\<rparr>]"
    by code_simp
  show ?thesis using a b by simp
qed

subsection \<open>Schema reconciliation\<close>

lemma covers_initial:
  "covers (map (\<lambda>category. (category, [])) (map fst TACTICAL_CATEGORIES))"
proof -
  have "list_all (\<lambda>tc. snd tc \<in> set (map fst TACTICAL_CATEGORIES)) tactics_to_category"
    by code_simp
  then have "snd ` set tactics_to_category \<subseteq> set (map fst TACTICAL_CATEGORIES)"
    by (auto simp: list_all_iff)
  then have a: "snd ` set tactics_to_category \<subseteq> set (map fst TACTICAL_CATEGORIES)" .
  have b: "fst ` set (map (\<lambda>category. (category, [])) (map fst TACTICAL_CATEGORIES))
                 = set (map fst TACTICAL_CATEGORIES)"
    by (simp add: image_image)
  show ?thesis unfolding covers_def b by (rule a)
qed

lemma group_step_ok:
  assumes c: "covers tbc" and t: "fst tp \<in> fst ` set tactics_to_category"
  shows "\<exists>tbc'. group_step tp tbc = Inr tbc' \<and> covers tbc'"
proof (cases "snd tp \<ge> 0.05")
  case False
  then show ?thesis using c by (simp add: group_step_def Let_def)
next
  case True
  from t obtain cat where m: "map_of tactics_to_category (fst tp) = Some cat"
    by (cases "map_of tactics_to_category (fst tp)") (simp_all add: map_of_eq_None_iff)
  then have "(fst tp, cat) \<in> set tactics_to_category" by (rule map_of_SomeD)
  then have "cat \<in> snd ` set tactics_to_category" by force
  then have "cat \<in> fst ` set tbc" using c unfolding covers_def by blast
  then obtain entries where e: "map_of tbc cat = Some entries"
    by (cases "map_of tbc cat") (simp_all add: map_of_eq_None_iff)
  let ?r = "AList.update cat (AList.update (fst tp) (fround2 (fmul (snd tp) 100)) entries) tbc"
  have "group_step tp tbc = Inr ?r" using True by (simp add: group_step_def Let_def m e)
  moreover have "covers ?r" using c unfolding covers_def by (auto simp: AList.dom_update)
  ultimately show ?thesis by blast
qed

lemma group_loop_ok:
  "covers tbc \<Longrightarrow> \<forall>tp \<in> set tps. fst tp \<in> fst ` set tactics_to_category
   \<Longrightarrow> \<exists>r. group_loop tps tbc = Inr r"
proof (induction tps arbitrary: tbc)
  case Nil then show ?case by simp
next
  case (Cons tp tps)
  obtain tbc' where s: "group_step tp tbc = Inr tbc'" and c: "covers tbc'"
    using group_step_ok[OF Cons.prems(1), of tp] Cons.prems(2) by auto
  have "\<exists>r. group_loop tps tbc' = Inr r" using Cons.IH[OF c] Cons.prems(2) by simp
  then show ?case by (simp add: s bind_err_def)
qed

lemma classify_ok:
  assumes m: "model self = Some m"
      and r: "model_predict_proba m features = Inr (row # rows)"
      and cls: "set (classes m) \<subseteq> fst ` set tactics_to_category"
  shows "\<exists>res. classify self features = Inr res"
proof -
  have "\<forall>tp \<in> set (zip (classes m) row). fst tp \<in> fst ` set tactics_to_category"
  proof
    fix tp assume "tp \<in> set (zip (classes m) row)"
    then have "(fst tp, snd tp) \<in> set (zip (classes m) row)" by simp
    then have "fst tp \<in> set (classes m)" by (rule set_zip_leftD)
    then show "fst tp \<in> fst ` set tactics_to_category" using cls by blast
  qed
  then obtain g where "group_loop (zip (classes m) row)
        (map (\<lambda>category. (category, [])) (map fst TACTICAL_CATEGORIES)) = Inr g"
    using group_loop_ok[OF covers_initial] by blast
  then show ?thesis by (simp add: classify_def m r bind_err_def)
qed

lemma map_of_map_values:
  "map_of (map (\<lambda>(c, vs). (c, h vs)) cols) c = map_option h (map_of cols c)"
  by (induction cols) auto

lemma map_of_map_cells:
  "map_of (columns (map_cells g f)) c = map_option (map g) (map_of (columns f) c)"
  by (simp add: map_cells_def map_of_map_values)

subsection \<open>Schema reconciliation\<close>

lemma well_formed_drop_columns: "well_formed f \<Longrightarrow> well_formed (drop_columns cs f)"
  by (auto simp: well_formed_def drop_columns_def)

lemma well_formed_drop_unused: "well_formed f \<Longrightarrow> well_formed (drop_unused f)"
  by (simp add: drop_unused_def Let_def well_formed_drop_columns)

lemma well_formed_bools_to_int: "well_formed f \<Longrightarrow> well_formed (bools_to_int f)"
  by (auto simp: well_formed_def bools_to_int_def)

lemma well_formed_map_cells: "well_formed f \<Longrightarrow> well_formed (map_cells g f)"
  by (auto simp: well_formed_def map_cells_def)

lemma well_formed_get_dummies:
  assumes "well_formed f" shows "well_formed (get_dummies cv c f)"
proof (cases "map_of (columns f) c")
  case None
  then show ?thesis using assms by (simp add: get_dummies_def)
next
  case (Some vs)
  then have "(c, vs) \<in> set (columns f)" by (rule map_of_SomeD)
  then have "length vs = nrows f" using assms by (force simp: well_formed_def)
  then show ?thesis using assms Some by (auto simp: well_formed_def get_dummies_def)
qed

lemma well_formed_encode_columns: "well_formed f \<Longrightarrow> well_formed (encode_columns cv f)"
  by (simp add: encode_columns_def Let_def well_formed_map_cells well_formed_get_dummies
        well_formed_bools_to_int)

lemma drop_runners_rows:
  assumes w: "well_formed f" and n: "nrows f > 0"
  shows "\<exists>g. drop_runners f = Inr g \<and> well_formed g \<and> nrows g = nrows f"
proof (cases "map_of (columns f) ''runners''")
  case None
  then show ?thesis using w by (simp add: drop_runners_def)
next
  case (Some vs)
  then have "(''runners'', vs) \<in> set (columns f)" by (rule map_of_SomeD)
  then have "length vs = nrows f" using w by (force simp: well_formed_def)
  then obtain v ws where "vs = v # ws" using n by (cases vs) auto
  then show ?thesis using Some w
    by (simp add: drop_runners_def well_formed_drop_columns drop_columns_keeps)
qed

lemma encode_features_rows:
  assumes w: "well_formed gs" and n: "nrows gs > 0"
  shows "\<exists>enc. encode_features cv gs = Inr enc \<and> well_formed enc \<and> nrows enc = nrows gs"
proof -
  have "well_formed (drop_unused gs)" "nrows (drop_unused gs) > 0"
    using w n by (simp_all add: well_formed_drop_unused nrows_drop_unused)
  then obtain g where g: "drop_runners (drop_unused gs) = Inr g" "well_formed g"
      "nrows g = nrows (drop_unused gs)"
    using drop_runners_rows by blast
  have "encode_features cv gs = Inr (encode_columns cv g)"
    by (simp add: encode_features_def g(1) bind_err_def)
  moreover have "well_formed (encode_columns cv g)" by (rule well_formed_encode_columns[OF g(2)])
  moreover have "nrows (encode_columns cv g) = nrows gs"
    by (simp add: nrows_encode_columns g(3) nrows_drop_unused)
  ultimately show ?thesis by blast
qed

lemma astype_int_to_numeric: "is_Num (astype_int (to_numeric cv v))"
  by (cases v) (simp_all split: option.splits)

lemma fill_length: "well_formed f \<Longrightarrow> length (fill f c) = nrows f"
proof (cases "map_of (columns f) c")
  case None
  then show ?thesis by (simp add: fill_def)
next
  case (Some vs)
  assume "well_formed f"
  moreover have "(c, vs) \<in> set (columns f)" using Some by (rule map_of_SomeD)
  ultimately have "length vs = nrows f" by (force simp: well_formed_def)
  then show ?thesis using Some by (simp add: fill_def)
qed

lemma fill_castable:
  assumes "\<forall>vs \<in> snd ` set (columns f). list_all (\<lambda>v. is_Num (astype_int v)) vs"
  shows "list_all (\<lambda>v. is_Num (astype_int v)) (fill f c)"
proof (cases "map_of (columns f) c")
  case None
  then show ?thesis by (simp add: fill_def list_all_iff)
next
  case (Some vs)
  then have "(c, vs) \<in> set (columns f)" by (rule map_of_SomeD)
  then have "vs \<in> snd ` set (columns f)" by force
  then have "list_all (\<lambda>v. is_Num (astype_int v)) vs" using assms by blast
  then show ?thesis using Some by (simp add: fill_def)
qed

lemma encode_columns_castable:
  "\<forall>vs \<in> snd ` set (columns (encode_columns cv f)). list_all (\<lambda>v. is_Num (astype_int v)) vs"
  by (auto simp: encode_columns_def Let_def map_cells_def list_all_iff astype_int_to_numeric)

lemma encode_features_castable:
  assumes "encode_features cv gs = Inr enc"
  shows "\<forall>vs \<in> snd ` set (columns enc). list_all (\<lambda>v. is_Num (astype_int v)) vs"
proof -
  from assms obtain g where "enc = encode_columns cv g"
    by (auto simp: encode_features_def bind_err_Inr)
  then show ?thesis using encode_columns_castable by simp
qed

text \<open>
  C4. For a predictor with a stored schema, on a well-formed frame of at least one
  record, feature preparation succeeds whatever columns the record has: the prepared
  frame has exactly the stored columns in the stored order (so extra columns are gone),
  every stored column that the encoded record lacks is filled with 0, all cells are
  numbers, and \<open>predict_proba\<close> applies the model to that frame. \<open>predict_proba\<close>
  then returns a result whenever the estimator returns probabilities for that frame
  and its classes are tactics of the taxonomy.
\<close>

theorem schema_reconciliation:
  assumes fn: "feature_names self = Some names"
      and w: "well_formed game_state"
      and n: "nrows game_state > 0"
  shows "\<exists>enc features.
           encode_features cv game_state = Inr enc \<and>
           prepare_features cv self game_state = Inr features \<and>
           map fst (columns features) = names \<and>
           (\<forall>c \<in> set names.
              map_of (columns features) c =
                Some (case map_of (columns enc) c of
                        None \<Rightarrow> replicate (nrows game_state) (Num 0)
                      | Some vs \<Rightarrow> map astype_int vs)) \<and>
           nrows features = nrows game_state \<and> well_formed features \<and> numeric features \<and>
           predict_proba cv self game_state = classify self features \<and>
           (\<forall>m row rows.
              model self = Some m \<and> model_predict_proba m features = Inr (row # rows) \<and>
              set (classes m) \<subseteq> fst ` set tactics_to_category \<longrightarrow>
              (\<exists>res. predict_proba cv self game_state = Inr res))"
proof -
  obtain enc where enc: "encode_features cv game_state = Inr enc" and we: "well_formed enc"
      and ne: "nrows enc = nrows game_state"
    using encode_features_rows[OF w n] by blast
  let ?rec = "enc\<lparr>columns := map (\<lambda>c. (c, fill enc c)) names\<rparr>"
  let ?features = "map_cells astype_int ?rec"
  have prep: "prepare_features cv self game_state = Inr ?features"
    by (simp add: prepare_features_of_encoded[OF enc] fn)
  have names: "map fst (columns ?features) = names"
    by (simp add: map_cells_def comp_def)
  have look: "map_of (columns ?rec) c = Some (fill enc c)" if "c \<in> set names" for c
    using that by (simp add: map_of_map_restrict)
  have vals: "\<forall>c \<in> set names.
              map_of (columns ?features) c =
                Some (case map_of (columns enc) c of
                        None \<Rightarrow> replicate (nrows game_state) (Num 0)
                      | Some vs \<Rightarrow> map astype_int vs)"
  proof
    fix c assume c: "c \<in> set names"
    have "map_of (columns ?features) c = Some (map astype_int (fill enc c))"
      unfolding map_of_map_cells look[OF c] by simp
    also have "map astype_int (fill enc c) =
                (case map_of (columns enc) c of
                        None \<Rightarrow> replicate (nrows game_state) (Num 0)
                      | Some vs \<Rightarrow> map astype_int vs)"
      by (simp add: fill_def ne split: option.splits)
    finally show "map_of (columns ?features) c =
                Some (case map_of (columns enc) c of
                        None \<Rightarrow> replicate (nrows game_state) (Num 0)
                      | Some vs \<Rightarrow> map astype_int vs)" .
  qed
  have nr: "nrows ?features = nrows game_state" by (simp add: map_cells_def ne)
  have cols: "snd ` set (columns ?features) = (\<lambda>c. map astype_int (fill enc c)) ` set names"
    by (force simp: map_cells_def)
  have wf: "well_formed ?features"
    unfolding well_formed_def cols nr using fill_length[OF we] ne by simp
  have num: "numeric ?features"
    unfolding numeric_def cols
    using fill_castable[OF encode_features_castable[OF enc]] by (simp add: list_all_iff)
  have pp: "predict_proba cv self game_state = classify self ?features"
    by (simp add: predict_proba_def prep bind_err_def)
  have ok: "\<forall>m row rows.
              model self = Some m \<and> model_predict_proba m ?features = Inr (row # rows) \<and>
              set (classes m) \<subseteq> fst ` set tactics_to_category \<longrightarrow>
              (\<exists>res. predict_proba cv self game_state = Inr res)"
    unfolding pp using classify_ok by blast
  show ?thesis
    by (rule exI[of _ enc], rule exI[of _ ?features]) (intro conjI enc prep names vals nr wf num pp ok)
qed

theorem schema_reconciliation_witness:
  "feature_names sample_predictor =
     Some [''inning'', ''outs'', ''result_Home Run'', ''result_Single''] \<and>
   well_formed sample_frame \<and> 0 < nrows sample_frame \<and>
   (\<exists>features res.
      prepare_features no_parse sample_predictor sample_frame = Inr features \<and>
      map fst (columns features) = [''inning'', ''outs'', ''result_Home Run'', ''result_Single''] \<and>
      map_of (columns features) ''inning'' = Some [Num 8] \<and>
      map_of (columns features) ''result_Single'' = Some [Num 0] \<and>
      numeric features \<and>
      predict_proba no_parse sample_predictor sample_frame = classify sample_predictor features \<and>
      predict_proba no_parse sample_predictor sample_frame = Inr res)"
proof -
  let ?names = "[''inning'', ''outs'', ''result_Home Run'', ''result_Single'']"
  have h1: "feature_names sample_predictor = Some ?names"
    by (simp add: sample_predictor_def)
  have h2: "well_formed sample_frame" by code_simp
  have h3: "0 < nrows sample_frame" by (simp add: sample_frame_def)
  have e: "encode_features no_parse sample_frame =
             Inr \<lparr>nrows = 1,
                  columns = [(''inning'', [Num 8]), (''outs'', [Num 1]), (''score_diff'', [Num 1]),
                             (''pressure_index'', [Num 2]), (''num_runners'', [Num 1]),
                             (''scoring_position'', [Num 1]), (''half_inning_top'', [Flag True]),
                             (''result_Home Run'', [Flag True])]\<rparr>"
    by code_simp
  obtain enc features where
    1: "encode_features no_parse sample_frame = Inr enc" and
    2: "prepare_features no_parse sample_predictor sample_frame = Inr features" and
    3: "map fst (columns features) = ?names" and
    4: "\<forall>c \<in> set ?names.
          map_of (columns features) c =
            Some (case map_of (columns enc) c of
                    None \<Rightarrow> replicate (nrows sample_frame) (Num 0)
                  | Some vs \<Rightarrow> map astype_int vs)" and
    5: "nrows features = nrows sample_frame" and
    6: "numeric features" and
    7: "predict_proba no_parse sample_predictor sample_frame = classify sample_predictor features" and
    8: "\<forall>m row rows.
          model sample_predictor = Some m \<and> model_predict_proba m features = Inr (row # rows) \<and>
          set (classes m) \<subseteq> fst ` set tactics_to_category \<longrightarrow>
          (\<exists>res. predict_proba no_parse sample_predictor sample_frame = Inr res)"
    using schema_reconciliation[OF h1 h2 h3, of no_parse] by (elim exE conjE)
  have enc: "enc = \<lparr>nrows = 1,
                  columns = [(''inning'', [Num 8]), (''outs'', [Num 1]), (''score_diff'', [Num 1]),
                             (''pressure_index'', [Num 2]), (''num_runners'', [Num 1]),
                             (''scoring_position'', [Num 1]), (''half_inning_top'', [Flag True]),
                             (''result_Home Run'', [Flag True])]\<rparr>"
    using 1 e by simp
  have a: "map_of (columns features) ''inning'' = Some [Num 8]"
    using 4 by (simp add: enc)
  have b: "map_of (columns features) ''result_Single'' = Some [Num 0]"
    using 4 by (simp add: enc sample_frame_def)
  have m: "model sample_predictor = Some sample_classifier" by (simp add: sample_predictor_def)
  have r: "model_predict_proba sample_classifier features = Inr ([fl 0.30, fl 0.68, fl 0.02] # [])"
    by (simp add: sample_classifier_def 5 sample_frame_def)
  have c: "set (classes sample_classifier) \<subseteq> fst ` set tactics_to_category" by code_simp
  obtain res where 9: "predict_proba no_parse sample_predictor sample_frame = Inr res"
    using 8 m r c by blast
  have ex: "\<exists>features res.
      prepare_features no_parse sample_predictor sample_frame = Inr features \<and>
      map fst (columns features) = ?names \<and>
      map_of (columns features) ''inning'' = Some [Num 8] \<and>
      map_of (columns features) ''result_Single'' = Some [Num 0] \<and>
      numeric features \<and>
      predict_proba no_parse sample_predictor sample_frame = classify sample_predictor features \<and>
      predict_proba no_parse sample_predictor sample_frame = Inr res"
    by (rule exI[of _ features], rule exI[of _ res]) (intro conjI 2 3 a b 6 7 9)
  show ?thesis by (intro conjI h1 h2 h3 ex)
qed

subsection \<open>Persistence\<close>

text \<open>
  C5. For a trained predictor, given that \<open>joblib.load\<close> returns the dictionary that
  \<open>joblib.dump\<close> wrote, \<open>save_model\<close> followed by \<open>load_model\<close> succeeds and yields a
  predictor with the same model and feature names, whose \<open>predict_proba\<close> agrees with
  the saved predictor's on every frame.
\<close>

theorem save_load_roundtrip:
  assumes trained: "model self = Some m"
      and lib: "joblib_load jl (joblib_dump jl (saved_data self)) = Inr (saved_data self)"
  shows "\<exists>loaded. load_model jl other filename (save_model jl self filename fs) = Inr loaded \<and>
           model loaded = model self \<and> feature_names loaded = feature_names self \<and>
           predict_proba cv loaded game_state = predict_proba cv self game_state"
proof -
  let ?loaded = "other\<lparr>model := model self, feature_names := feature_names self\<rparr>"
  have d: "md_model (saved_data self) = Some m"
      "md_feature_names (saved_data self) = feature_names self"
    by (simp_all add: saved_data_def trained)
  have l: "load_model jl other filename (save_model jl self filename fs) = Inr ?loaded"
    by (simp add: load_model_def save_model_def lib bind_err_def d trained Let_def)
  have p: "predict_proba cv ?loaded game_state = predict_proba cv self game_state"
    by (simp add: predict_proba_def prepare_features_def classify_def)
  show ?thesis using l p by simp
qed

theorem save_load_roundtrip_witness:
  "model sample_predictor = Some sample_classifier \<and>
   joblib_load plain_joblib (joblib_dump plain_joblib (saved_data sample_predictor))
     = Inr (saved_data sample_predictor) \<and>
   (\<exists>loaded. load_model plain_joblib init_predictor ''models/tactical_predictor.joblib''
                (save_model plain_joblib sample_predictor ''models/tactical_predictor.joblib'' Map.empty)
              = Inr loaded \<and>
      model loaded = model sample_predictor \<and>
      feature_names loaded = feature_names sample_predictor \<and>
      predict_proba no_parse loaded sample_frame = predict_proba no_parse sample_predictor sample_frame)"
proof -
  have h1: "model sample_predictor = Some sample_classifier" by (simp add: sample_predictor_def)
  have h2: "joblib_load plain_joblib (joblib_dump plain_joblib (saved_data sample_predictor))
              = Inr (saved_data sample_predictor)"
    by (simp add: plain_joblib_def)
  show ?thesis
    by (intro conjI h1 h2
          save_load_roundtrip[OF h1 h2, of init_predictor "''models/tactical_predictor.joblib''"
             Map.empty no_parse sample_frame])
qed


subsection \<open>Momentum and probability adjustment\<close>











lemma column_sum_indicators:
  "list_all is_indicator vs \<Longrightarrow> column_sum vs = Inr (of_nat (length (filter positive vs)))"
proof (induction vs)
  case Nil then show ?case by simp
next
  case (Cons v vs)
  then show ?case by (cases v) (auto simp: bind_err_def)
qed

lemma indicator_total_counts:
  "indicator_columns f inds \<Longrightarrow>
   indicator_total f inds = Inr (of_nat (positive_indicator_count f inds))"
proof (induction inds)
  case Nil then show ?case by (simp add: positive_indicator_count_def)
next
  case (Cons c cs)
  then have ih: "indicator_total f cs = Inr (of_nat (positive_indicator_count f cs))"
    by (simp add: indicator_columns_def)
  show ?case
  proof (cases "map_of (columns f) c")
    case None
    then show ?thesis using ih by (simp add: positive_indicator_count_def)
  next
    case (Some vs)
    then have "list_all is_indicator vs" using Cons.prems by (simp add: indicator_columns_def)
    then have "column_sum vs = Inr (of_nat (length (filter positive vs)))"
      by (rule column_sum_indicators)
    then show ?thesis using ih Some by (simp add: positive_indicator_count_def bind_err_def)
  qed
qed

lemma four_of_five: "min (fdiv 4 5) 1 = fl 0.8"
  by code_simp

lemma one_of_five: "min (fdiv 1 5) 1 = fl 0.2"
  by code_simp

text \<open>
  C6, as the code has it. Over the last 5 plays, with 0/1 indicator columns, the
  recent-success ratio of a side is the number of positive indicators of that side (hit,
  walk, run scored for batting; strikeout, out, double play for pitching) divided by the
  number of plays, capped at 1: a play with two positive indicators counts twice. So
  five plays that hold 4 positive indicators of a side in all give the ratio 0.8, and
  five plays that hold 1 give 0.2 (the doubles nearest to them, as \<open>4/5\<close> and \<open>1/5\<close> are
  in Python).
\<close>

theorem recent_success_counts_indicators:
  assumes "map_of success_indicators team_type = Some indicators"
      and "\<not> is_empty (tail5 game_state)"
      and "indicator_columns (tail5 game_state) indicators"
  shows "recent_success_of game_state team_type =
           Inr (min (fdiv (of_nat (positive_indicator_count (tail5 game_state) indicators))
                          (of_nat (nrows (tail5 game_state)))) 1) \<and>
         (nrows (tail5 game_state) = 5 \<and>
          positive_indicator_count (tail5 game_state) indicators = 4 \<longrightarrow>
            recent_success_of game_state team_type = Inr (fl 0.8)) \<and>
         (nrows (tail5 game_state) = 5 \<and>
          positive_indicator_count (tail5 game_state) indicators = 1 \<longrightarrow>
            recent_success_of game_state team_type = Inr (fl 0.2))"
proof -
  have r: "recent_success_of game_state team_type =
           Inr (min (fdiv (of_nat (positive_indicator_count (tail5 game_state) indicators))
                          (of_nat (nrows (tail5 game_state)))) 1)"
    unfolding recent_success_of_def calculate_recent_success_def
    by (simp add: assms indicator_total_counts bind_err_def)
  show ?thesis unfolding r using four_of_five one_of_five by simp
qed

theorem recent_success_counts_indicators_witness:
  "map_of success_indicators ''batting'' = Some [''hit'', ''walk'', ''run_scored''] \<and>
   map_of success_indicators ''pitching'' = Some [''strikeout'', ''out'', ''double_play''] \<and>
   \<not> is_empty (tail5 four_hits_frame) \<and>
   indicator_columns (tail5 four_hits_frame) [''hit'', ''walk'', ''run_scored''] \<and>
   indicator_columns (tail5 four_hits_frame) [''strikeout'', ''out'', ''double_play''] \<and>
   nrows (tail5 four_hits_frame) = 5 \<and>
   positive_indicator_count (tail5 four_hits_frame) [''hit'', ''walk'', ''run_scored''] = 4 \<and>
   positive_indicator_count (tail5 four_hits_frame) [''strikeout'', ''out'', ''double_play''] = 1 \<and>
   recent_success_of four_hits_frame ''batting'' = Inr (fl 0.8) \<and>
   recent_success_of four_hits_frame ''pitching'' = Inr (fl 0.2)"
proof -
  have b1: "map_of success_indicators ''batting'' = Some [''hit'', ''walk'', ''run_scored'']"
    by (simp add: success_indicators_def)
  have p1: "map_of success_indicators ''pitching'' = Some [''strikeout'', ''out'', ''double_play'']"
    by (simp add: success_indicators_def)
  have h2: "\<not> is_empty (tail5 four_hits_frame)" by code_simp
  have b3: "indicator_columns (tail5 four_hits_frame) [''hit'', ''walk'', ''run_scored'']"
    by code_simp
  have p3: "indicator_columns (tail5 four_hits_frame) [''strikeout'', ''out'', ''double_play'']"
    by code_simp
  have n: "nrows (tail5 four_hits_frame) = 5" by code_simp
  have bk: "positive_indicator_count (tail5 four_hits_frame) [''hit'', ''walk'', ''run_scored''] = 4"
    by code_simp
  have pk: "positive_indicator_count (tail5 four_hits_frame) [''strikeout'', ''out'', ''double_play''] = 1"
    by code_simp
  have b: "recent_success_of four_hits_frame ''batting'' = Inr (fl 0.8)"
    using recent_success_counts_indicators[OF b1 h2 b3] n bk by blast
  have p: "recent_success_of four_hits_frame ''pitching'' = Inr (fl 0.2)"
    using recent_success_counts_indicators[OF p1 h2 p3] n pk by blast
  show ?thesis by (intro conjI b1 p1 h2 b3 p3 n bk pk b p)
qed

text \<open>
  C6 as stated fails when a play has two positive indicators: one scoring hit in five
  plays gives the ratio 0.4, while the fraction of plays with a positive indicator is 0.2.
\<close>

theorem double_indicator_counterexample:
  "recent_success_of scoring_hit_frame ''batting'' = Inr (fl 0.4) \<and>
   spec_success_fraction (tail5 scoring_hit_frame) [''hit'', ''walk'', ''run_scored''] = 0.2 \<and>
   recent_success_of scoring_hit_frame ''batting'' \<noteq>
     Inr (fl (spec_success_fraction (tail5 scoring_hit_frame) [''hit'', ''walk'', ''run_scored'']))"
proof -
  have a: "recent_success_of scoring_hit_frame ''batting'' = Inr (fl 0.4)" by code_simp
  have s: "spec_success_fraction (tail5 scoring_hit_frame) [''hit'', ''walk'', ''run_scored''] = 0.2"
    by code_simp
  have d: "fl 0.4 \<noteq> fl 0.2" by code_simp
  show ?thesis unfolding a s using d by simp
qed

end
